theory Spec2Isabelle
  imports Main "HOL-Library.Sublist"
begin

section \<open>Python text primitives used by achandswim.py\<close>

text \<open>
  Text is modelled as \<open>string\<close>, one \<open>char\<close> per code point, so the texts covered
  are those of the code points U+0000 to U+00FF; the payment file format itself is
  plain ASCII.  The character classes below are Python's on that range.  Python
  integers are unbounded, so they are \<open>int\<close>.  A raised exception is a value of
  \<open>error\<close>.
\<close>

datatype error = ValueError | IndexError | KeyError

text \<open>\<^verbatim>\<open>str.isspace\<close> on one character, which is what \<^verbatim>\<open>str.strip\<close> removes: TAB, LF,
  VT, FF, CR, FS, GS, RS, US, SPACE, NEL (U+0085) and NBSP (U+00A0).\<close>

definition isspace :: "char \<Rightarrow> bool" where
  "isspace c = (c \<in> set [CHR 0x09, CHR 0x0A, CHR 0x0B, CHR 0x0C, CHR 0x0D,
                           CHR 0x1C, CHR 0x1D, CHR 0x1E, CHR 0x1F, CHR 0x20,
                           CHR 0x85, CHR 0xA0])"

text \<open>The whitespace \<^verbatim>\<open>int\<close> skips around a number is narrower: of the ASCII characters
  only TAB, LF, VT, FF, CR and SPACE (the separators FS, GS, RS and US make \<^verbatim>\<open>int\<close>
  raise ValueError), and the whitespace beyond ASCII, NEL and NBSP.\<close>

definition int_space :: "char \<Rightarrow> bool" where
  "int_space c = (c \<in> set [CHR 0x09, CHR 0x0A, CHR 0x0B, CHR 0x0C, CHR 0x0D, CHR 0x20,
                             CHR 0x85, CHR 0xA0])"

text \<open>The decimal digits, which \<^verbatim>\<open>int\<close> reads and \<^verbatim>\<open>\d\<close> matches: up to U+00FF these
  are 0 to 9.  \<^verbatim>\<open>str.isdigit\<close> accepts more: the superscript digits U+00B2, U+00B3
  and U+00B9 are digits to it and are no decimal digits.\<close>

definition is_digit :: "char \<Rightarrow> bool" where
  "is_digit c = (c \<in> set ''0123456789'')"

definition is_superscript :: "char \<Rightarrow> bool" where
  "is_superscript c = (c \<in> set [CHR 0xB2, CHR 0xB3, CHR 0xB9])"

definition digit_val :: "char \<Rightarrow> nat" where
  "digit_val c = of_char c - 48"

definition digit_char :: "nat \<Rightarrow> char" where
  "digit_char d = ''0123456789'' ! d"

text \<open>\<^verbatim>\<open>s.strip()\<close>, \<^verbatim>\<open>s.startswith(p)\<close>, \<^verbatim>\<open>s.endswith(p)\<close>, \<^verbatim>\<open>sub in s\<close>.\<close>

definition strip :: "string \<Rightarrow> string" where
  "strip s = rev (dropWhile isspace (rev (dropWhile isspace s)))"

definition startswith :: "string \<Rightarrow> string \<Rightarrow> bool" where
  "startswith s p = prefix p s"

definition endswith :: "string \<Rightarrow> string \<Rightarrow> bool" where
  "endswith s p = suffix p s"

fun contains :: "string \<Rightarrow> string \<Rightarrow> bool" where
  "contains sub [] = (sub = [])"
| "contains sub (c # cs) = (prefix sub (c # cs) \<or> contains sub cs)"

text \<open>Slices with literal bounds: \<^verbatim>\<open>s[a:b]\<close>, \<^verbatim>\<open>s[-k:]\<close> and \<^verbatim>\<open>s[:-k]\<close>.  Python clips
  a slice to the string, as \<open>take\<close> and \<open>drop\<close> do.\<close>

definition slice :: "nat \<Rightarrow> nat \<Rightarrow> string \<Rightarrow> string" where
  "slice a b s = take (b - a) (drop a s)"

definition last_n :: "nat \<Rightarrow> string \<Rightarrow> string" where
  "last_n k s = drop (length s - k) s"

definition drop_last_n :: "nat \<Rightarrow> string \<Rightarrow> string" where
  "drop_last_n k s = take (length s - k) s"

text \<open>\<^verbatim>\<open>str(n)\<close> for an integer: decimal digits, with a minus sign when negative.\<close>

fun nat_str :: "nat \<Rightarrow> string" where
  "nat_str n = (if n < 10 then [digit_char n]
                else nat_str (n div 10) @ [digit_char (n mod 10)])"

declare nat_str.simps [simp del]

definition py_str :: "int \<Rightarrow> string" where
  "py_str i = (if i < 0 then CHR ''-'' # nat_str (nat (- i)) else nat_str (nat i))"

text \<open>
  \<^verbatim>\<open>int(s)\<close> for a string, base 10: surrounding whitespace (\<open>int_space\<close>) is skipped,
  one sign is allowed, then decimal digits in which single underscores may separate
  digits.  Anything else raises ValueError (\<open>None\<close> here).
\<close>

fun int_digits :: "nat \<Rightarrow> string \<Rightarrow> nat option" where
  "int_digits acc [] = Some acc"
| "int_digits acc [c] = (if is_digit c then Some (10 * acc + digit_val c) else None)"
| "int_digits acc (c # d # ds) =
     (if is_digit c then int_digits (10 * acc + digit_val c) (d # ds)
      else if c = CHR ''_'' \<and> is_digit d then int_digits (10 * acc + digit_val d) ds
      else None)"

definition int_unsigned :: "string \<Rightarrow> nat option" where
  "int_unsigned s = (case s of [] \<Rightarrow> None
                     | c # cs \<Rightarrow> if is_digit c then int_digits (digit_val c) cs else None)"

definition int_strip :: "string \<Rightarrow> string" where
  "int_strip s = rev (dropWhile int_space (rev (dropWhile int_space s)))"

definition py_int :: "string \<Rightarrow> int option" where
  "py_int s = (case int_strip s of [] \<Rightarrow> None
               | c # cs \<Rightarrow>
                   if c = CHR ''-'' then map_option (\<lambda>n. - int n) (int_unsigned cs)
                   else if c = CHR ''+'' then map_option int (int_unsigned cs)
                   else map_option int (int_unsigned (c # cs)))"

text \<open>
  Format specifications.  \<^verbatim>\<open>{:0Wd}\<close> pads with zeros after the sign; a fill
  character and an alignment (right or left) pad the rendered text on the left or on the
  right.  No specification truncates: a value wider than the field is written whole.
\<close>

definition rjust :: "char \<Rightarrow> nat \<Rightarrow> string \<Rightarrow> string" where
  "rjust f w s = replicate (w - length s) f @ s"

definition ljust :: "char \<Rightarrow> nat \<Rightarrow> string \<Rightarrow> string" where
  "ljust f w s = s @ replicate (w - length s) f"

definition fmt_0d :: "nat \<Rightarrow> int \<Rightarrow> string" where
  "fmt_0d w i = (if i < 0 then CHR ''-'' # rjust (CHR ''0'') (w - 1) (nat_str (nat (- i)))
                 else rjust (CHR ''0'') w (nat_str (nat i)))"

text \<open>\<^verbatim>\<open>'\n'.join(lines) + '\n'\<close>, the text both output files are written as.\<close>

fun join_lines :: "string list \<Rightarrow> string" where
  "join_lines [] = []"
| "join_lines [l] = l"
| "join_lines (l # m # ls) = l @ CHR 0x0A # join_lines (m # ls)"

definition file_text :: "string list \<Rightarrow> string" where
  "file_text ls = join_lines ls @ [CHR 0x0A]"

section \<open>Run state\<close>

text \<open>The job arguments the conversion reads (\<^verbatim>\<open>script_data.apwx.args\<close>).\<close>

record Args =
  FTFCU_ROUTENBR :: string
  GL_ACCTNBR :: string
  CASH_BOX_NUMBER :: string
  EFFDATE :: string

text \<open>
  One on-us record: the list \<^verbatim>\<open>[rtnbr, acctnbr, ach_tc, amt, trace_nbr, line]\<close> that
  \<^verbatim>\<open>parse_ach_file\<close> buffers in \<^verbatim>\<open>onus_data\<close>, with the description appended as its
  seventh element once the addenda finalises it.
\<close>

record onus =
  onus_rtnbr :: string
  onus_acctnbr :: string
  onus_tc :: string
  onus_amt :: int
  onus_trace :: string
  onus_line :: string
  onus_desc :: "string option"

text \<open>\<^verbatim>\<open>ScriptData\<close>, with the entries of \<^verbatim>\<open>swim_file_info\<close> that change or are read.
  The database handle, configuration and hold date take no part in either output
  file and are left out.\<close>

record ScriptData =
  args :: Args
  newach_data :: "string list list"
  all_onus_data :: "onus list"
  entry_hash_cnt :: int
  total_credit :: int
  total_debit :: int
  total_record_cnt :: int
  file_header :: string
  swm_lines :: "string list"
  gl_cr_line :: string
  effDate :: string
  swimCt :: int
  glDrAmt :: int

definition initialize :: "Args \<Rightarrow> ScriptData" where
  "initialize a = \<lparr>args = a, newach_data = [], all_onus_data = [], entry_hash_cnt = 0,
     total_credit = 0, total_debit = 0, total_record_cnt = 0, file_header = [],
     swm_lines = [], gl_cr_line = [], effDate = [], swimCt = 0, glDrAmt = 0\<rparr>"

section \<open>Detail-record field extraction\<close>

record detail =
  rtnbr :: string
  acctnbr :: string
  ach_tc :: string
  amt :: int
  trace_nbr :: string
  sequence_nbr :: string
  has_addenda :: string

text \<open>The amount text handed to \<^verbatim>\<open>int\<close>: \<^verbatim>\<open>rec[29:39].lstrip('0') or '0'\<close>.\<close>

definition amt_text :: "string \<Rightarrow> string" where
  "amt_text r = (let a = dropWhile (\<lambda>c. c = CHR ''0'') (slice 29 39 r)
                 in if a = [] then ''0'' else a)"

text \<open>\<^verbatim>\<open>parse_ach_detail_record\<close>.  The assignments run in source order, so a bad
  amount raises ValueError before a short line raises IndexError at \<^verbatim>\<open>rec[78]\<close>.\<close>

definition parse_ach_detail_record :: "string \<Rightarrow> error + detail" where
  "parse_ach_detail_record r =
     (case py_int (amt_text r) of
        None \<Rightarrow> Inl ValueError
      | Some a \<Rightarrow>
          if length r \<le> 78 then Inl IndexError
          else Inr \<lparr>rtnbr = slice 3 12 r,
                    acctnbr = filter (\<lambda>c. c \<noteq> CHR '' '') (slice 12 29 r),
                    ach_tc = slice 1 3 r,
                    amt = a,
                    trace_nbr = slice 79 94 r,
                    sequence_nbr = last_n 7 (slice 79 94 r),
                    has_addenda = [r ! 78]\<rparr>)"

section \<open>Parsing and on-us extraction\<close>

text \<open>
  The local variables of \<^verbatim>\<open>parse_ach_file\<close>.  \<^verbatim>\<open>is_onus\<close> holds either the integer
  0 or the sequence-number text of the buffered detail; Python tests it for truth,
  so 0 and the empty text are both the empty string here.  \<^verbatim>\<open>onus_data\<close> is either
  the empty list (\<open>None\<close>) or the six buffered fields.  The flag is set only together
  with the buffer (lemma \<open>parse_lines_inv\<close> below), so the branches of the loop body
  for a set flag over an empty buffer are not reached; they are given the IndexError
  that \<^verbatim>\<open>pop\<close> raises on an empty list.
\<close>

record locals =
  current_batch :: "string list"
  onus_data :: "onus option"
  is_onus :: string

definition locals0 :: locals where
  "locals0 = \<lparr>current_batch = [], onus_data = None, is_onus = []\<rparr>"

text \<open>\<^verbatim>\<open>re.match(f'^6[23]2{ftfcu_routenbr}', line)\<close>.  The configured routing number is
  spliced into the pattern.  The model is for a routing number of digits, such as the
  default 321180379, which the pattern matches literally, character by character; a
  configured value holding a character that is special in a regular expression is
  not covered.\<close>

definition is_onus_detail :: "string \<Rightarrow> string \<Rightarrow> bool" where
  "is_onus_detail rt line =
     (case line of
        c0 # c1 # c2 # rest \<Rightarrow>
          c0 = CHR ''6'' \<and> (c1 = CHR ''2'' \<or> c1 = CHR ''3'') \<and> c2 = CHR ''2'' \<and> prefix rt rest
      | _ \<Rightarrow> False)"

text \<open>\<^verbatim>\<open>re.match(r'^705(.+)\d{3}$', line)\<close>: the text starts with 705, ends in three
  digits, and at least one character other than a line feed lies between.  The
  greedy group is everything between the first three and the last three characters.\<close>

definition addenda_match :: "string \<Rightarrow> string option" where
  "addenda_match line =
     (if startswith line ''705'' \<and> 7 \<le> length line
         \<and> list_all is_digit (last_n 3 line)
         \<and> list_all (\<lambda>c. c \<noteq> CHR 0x0A) (drop_last_n 3 (drop 3 line))
      then Some (drop_last_n 3 (drop 3 line)) else None)"

datatype flow = Continue | Break

text \<open>One pass of the loop body of \<^verbatim>\<open>parse_ach_file\<close> over a stripped, non-empty
  line; the branches are in the order of the source's \<^verbatim>\<open>if\<close>/\<^verbatim>\<open>elif\<close> chain.\<close>

definition parse_line :: "locals \<times> ScriptData \<Rightarrow> string \<Rightarrow> error + flow \<times> locals \<times> ScriptData" where
  "parse_line s line =
     (case s of (loc, sd) \<Rightarrow>
      if startswith line ''101'' then Inr (Continue, loc, sd\<lparr>file_header := line\<rparr>)
      else if startswith line ''9'' then Inr (Break, loc, sd)
      else if startswith line ''8'' then
        (if current_batch loc \<noteq> [] then
           (case (is_onus loc \<noteq> [], onus_data loc) of
              (True, Some d) \<Rightarrow>
                Inr (Continue, locals0,
                     sd\<lparr>newach_data := newach_data sd @ [current_batch loc @ [onus_line d]]\<rparr>)
            | _ \<Rightarrow>
                Inr (Continue, loc\<lparr>current_batch := []\<rparr>,
                     sd\<lparr>newach_data := newach_data sd @ [current_batch loc]\<rparr>))
         else Inr (Continue, loc, sd))
      else if startswith line ''5'' then Inr (Continue, loc\<lparr>current_batch := [line]\<rparr>, sd)
      else if startswith line ''7'' then
        (if is_onus loc = [] then
           Inr (Continue, loc\<lparr>current_batch := current_batch loc @ [line]\<rparr>, sd)
         else if \<not> contains ''EXT OAO'' line then
           (case onus_data loc of
              None \<Rightarrow> Inl IndexError
            | Some d \<Rightarrow>
                Inr (Continue,
                     \<lparr>current_batch = current_batch loc @ [onus_line d, line],
                      onus_data = None, is_onus = []\<rparr>, sd))
         else
           (case addenda_match line of
              None \<Rightarrow> Inr (Continue, loc, sd)
            | Some g \<Rightarrow>
                (case onus_data loc of
                   None \<Rightarrow> Inl IndexError
                 | Some d \<Rightarrow>
                     Inr (Continue, loc\<lparr>onus_data := None, is_onus := []\<rparr>,
                          sd\<lparr>all_onus_data := all_onus_data sd
                               @ [d\<lparr>onus_desc := Some (take 128 (strip g))\<rparr>]\<rparr>))))
      else if startswith line ''6'' then
        (let loc1 = (case (is_onus loc \<noteq> [], onus_data loc) of
                       (True, Some d) \<Rightarrow>
                         \<lparr>current_batch = current_batch loc @ [onus_line d],
                          onus_data = None, is_onus = []\<rparr>
                     | _ \<Rightarrow> loc)
         in if is_onus_detail (FTFCU_ROUTENBR (args sd)) line then
              (case parse_ach_detail_record line of
                 Inl e \<Rightarrow> Inl e
               | Inr r \<Rightarrow>
                   Inr (Continue,
                        loc1\<lparr>onus_data := Some \<lparr>onus_rtnbr = rtnbr r, onus_acctnbr = acctnbr r,
                                 onus_tc = ach_tc r, onus_amt = amt r, onus_trace = trace_nbr r,
                                 onus_line = line, onus_desc = None\<rparr>,
                             is_onus := sequence_nbr r\<rparr>, sd))
            else Inr (Continue, loc1\<lparr>current_batch := current_batch loc1 @ [line]\<rparr>, sd))
      else Inr (Continue, loc, sd))"

text \<open>The loop over the lines of the input file: each is stripped, blank lines are
  skipped, and a file control record ends the loop.\<close>

fun parse_lines :: "locals \<times> ScriptData \<Rightarrow> string list \<Rightarrow> error + locals \<times> ScriptData" where
  "parse_lines s [] = Inr s"
| "parse_lines s (raw # rest) =
     (if strip raw = [] then parse_lines s rest
      else (case parse_line s (strip raw) of
              Inl e \<Rightarrow> Inl e
            | Inr (Break, s') \<Rightarrow> Inr s'
            | Inr (Continue, s') \<Rightarrow> parse_lines s' rest))"

text \<open>\<^verbatim>\<open>parse_ach_file\<close>: \<open>Inr\<close> is the state after a \<^verbatim>\<open>True\<close> return, \<open>Inl\<close> the
  exception that made it return \<^verbatim>\<open>False\<close>.\<close>

definition parse_ach_file :: "ScriptData \<Rightarrow> string list \<Rightarrow> error + ScriptData" where
  "parse_ach_file sd achfile = map_sum id snd (parse_lines (locals0, sd) achfile)"

section \<open>File reconstruction\<close>

text \<open>
  The loop of \<^verbatim>\<open>rebuild_batch\<close> over \<^verbatim>\<open>batch_data[1:]\<close>.  The accumulator is
  \<^verbatim>\<open>(entry_hash_total, debit_total, credit_total, total_record_cnt, new_batch)\<close>.
\<close>

fun batch_loop :: "string list \<Rightarrow> int \<times> int \<times> int \<times> int \<times> string list
                     \<Rightarrow> error + int \<times> int \<times> int \<times> int \<times> string list" where
  "batch_loop [] acc = Inr acc"
| "batch_loop (line # ls) (h, d, c, n, nb) =
     (if startswith line ''6'' then
        (case parse_ach_detail_record line of
           Inl e \<Rightarrow> Inl e
         | Inr r \<Rightarrow>
             (case py_int (take 8 (rtnbr r)) of
                None \<Rightarrow> Inl ValueError
              | Some v \<Rightarrow>
                  if endswith (ach_tc r) ''2'' then
                    batch_loop ls (h + v, d, c + amt r, n + 1, nb @ [line])
                  else if endswith (ach_tc r) ''7'' then
                    batch_loop ls (h + v, d + amt r, c, n + 1, nb @ [line])
                  else batch_loop ls (h + v, d, c, n + 1, nb @ [line])))
      else batch_loop ls (h, d, c, n + 1, nb @ [line]))"

text \<open>The batch control record (type 8) as the f-string of \<^verbatim>\<open>rebuild_batch\<close> lays it out.\<close>

definition batch_control_footer :: "string \<Rightarrow> int \<Rightarrow> int \<Rightarrow> int \<Rightarrow> int \<Rightarrow> string
                                     \<Rightarrow> string \<Rightarrow> string \<Rightarrow> string" where
  "batch_control_footer service_class_code cnt entry_hash debit credit company_id odfi new_number =
     ''8'' @ service_class_code @ fmt_0d 6 cnt @ fmt_0d 10 entry_hash @ fmt_0d 12 debit
       @ fmt_0d 12 credit @ company_id @ replicate 18 (CHR '' '') @ replicate 8 (CHR '' '')
       @ odfi @ new_number"

text \<open>\<^verbatim>\<open>rebuild_batch\<close>: the rebuilt lines of one batch, with the run totals updated.  An
  empty result is a dropped batch.\<close>

definition rebuild_batch :: "ScriptData \<Rightarrow> string list \<Rightarrow> int \<Rightarrow> error + ScriptData \<times> string list" where
  "rebuild_batch sd batch_data control_nbr =
     (case batch_data of
        [] \<Rightarrow> Inr (sd, [])
      | batch_header # body \<Rightarrow>
          (let new_number = fmt_0d 7 control_nbr
           in case batch_loop body (0, 0, 0, 0, [drop_last_n 7 batch_header @ new_number]) of
                Inl e \<Rightarrow> Inl e
              | Inr (h, d, c, n, nb) \<Rightarrow>
                  if n = 0 then Inr (sd, [])
                  else (case py_int (last_n 10 (py_str h)) of
                          None \<Rightarrow> Inl ValueError
                        | Some eh \<Rightarrow>
                            Inr (sd\<lparr>entry_hash_cnt := entry_hash_cnt sd + eh,
                                    total_credit := total_credit sd + c,
                                    total_debit := total_debit sd + d,
                                    total_record_cnt := total_record_cnt sd + n\<rparr>,
                                 nb @ [batch_control_footer (slice 1 4 batch_header) n eh d c
                                         (slice 40 49 batch_header) (slice 79 87 batch_header)
                                         new_number]))))"

text \<open>The loop of \<^verbatim>\<open>rebuild_file\<close> over the stored batches; the state is the run data,
  \<^verbatim>\<open>batch_cnt\<close> and \<^verbatim>\<open>new_ach_file\<close>.\<close>

fun file_loop :: "string list list \<Rightarrow> ScriptData \<times> int \<times> string list
                    \<Rightarrow> error + ScriptData \<times> int \<times> string list" where
  "file_loop [] s = Inr s"
| "file_loop (batch_data # bs) (sd, batch_cnt, new_ach_file) =
     (case rebuild_batch sd batch_data (batch_cnt + 1) of
        Inl e \<Rightarrow> Inl e
      | Inr (sd', batch_file) \<Rightarrow>
          if batch_file = [] then file_loop bs (sd', batch_cnt + 1 - 1, new_ach_file)
          else file_loop bs (sd', batch_cnt + 1, new_ach_file @ batch_file))"

definition file_control_footer :: "int \<Rightarrow> int \<Rightarrow> int \<Rightarrow> int \<Rightarrow> int \<Rightarrow> int \<Rightarrow> string" where
  "file_control_footer batch_cnt block_cnt record_cnt entry_hash debit credit =
     ''9'' @ fmt_0d 6 batch_cnt @ fmt_0d 6 block_cnt @ fmt_0d 8 record_cnt
       @ fmt_0d 10 entry_hash @ fmt_0d 12 debit @ fmt_0d 12 credit @ replicate 39 (CHR '' '')"

definition extra_lines :: "nat \<Rightarrow> nat" where
  "extra_lines line_cnt = (if line_cnt mod 10 \<noteq> 0 then 10 - line_cnt mod 10 else 0)"

definition rebuild_file :: "ScriptData \<Rightarrow> error + ScriptData \<times> string list" where
  "rebuild_file sd =
     (case file_loop (newach_data sd) (sd, 0, [file_header sd]) of
        Inl e \<Rightarrow> Inl e
      | Inr (sd', batch_cnt, new_ach_file) \<Rightarrow>
          (case py_int (last_n 10 (py_str (entry_hash_cnt sd'))) of
             None \<Rightarrow> Inl ValueError
           | Some eh \<Rightarrow>
               (let line_cnt = 1 + length new_ach_file;
                    new_count = line_cnt + extra_lines line_cnt;
                    block_cnt = new_count div 10
                in Inr (sd', new_ach_file
                          @ [file_control_footer batch_cnt (int block_cnt) (total_record_cnt sd')
                               eh (total_debit sd') (total_credit sd')]
                          @ replicate (extra_lines line_cnt) (replicate 94 (CHR ''9''))))))"

text \<open>\<^verbatim>\<open>write_new_ach_file\<close>: the run data after reconstruction and the text written.\<close>

definition write_new_ach_file :: "ScriptData \<Rightarrow> error + ScriptData \<times> string" where
  "write_new_ach_file sd = map_sum id (\<lambda>(sd', ls). (sd', file_text ls)) (rebuild_file sd)"

section \<open>Settlement lines\<close>

text \<open>\<^verbatim>\<open>get_swim_file_info\<close> resets the settlement counters and copies the effective date.\<close>

definition get_swim_file_info :: "ScriptData \<Rightarrow> ScriptData" where
  "get_swim_file_info sd = sd\<lparr>effDate := EFFDATE (args sd), swimCt := 0, glDrAmt := 0\<rparr>"

text \<open>The table \<^verbatim>\<open>achToDnaTc\<close>: transaction code to (description, settlement code).\<close>

definition achToDnaTc :: "(string \<times> string \<times> string) list" where
  "achToDnaTc = [(''22'', ''OAO External Transfer'', ''DEPD''),
                 (''32'', ''OAO External Transfer'', ''DEPD'')]"

text \<open>The seventeen fields of \<^verbatim>\<open>swimFmt\<close>, for the arguments both callers pass: the
  fields that always receive the empty text or a constant are written out.  The
  amount is right-aligned with zero fill, so a minus sign follows the zeros.\<close>

definition swimFmt :: "string \<Rightarrow> string \<Rightarrow> int \<Rightarrow> string \<Rightarrow> string \<Rightarrow> string \<Rightarrow> string \<Rightarrow> string" where
  "swimFmt acct tc amount eff descr trace cash_box =
     rjust (CHR ''0'') 17 acct @ ljust (CHR '' '') 4 tc @ rjust (CHR ''0'') 10 (py_str amount)
       @ rjust (CHR ''0'') 6 [] @ rjust (CHR '' '') 8 eff @ ljust (CHR '' '') 45 descr
       @ rjust (CHR '' '') 15 trace @ rjust (CHR '' '') 10 cash_box
       @ rjust (CHR '' '') 4 [] @ rjust (CHR '' '') 4 []
       @ ljust (CHR '' '') 4 ''EL'' @ ljust (CHR '' '') 4 ''INTR'' @ ljust (CHR '' '') 4 ''IMED''
       @ rjust (CHR '' '') 10 [] @ ljust (CHR '' '') 4 [] @ ljust (CHR '' '') 4 []
       @ ljust (CHR '' '') 1 []"

definition create_swim_line :: "ScriptData \<Rightarrow> onus \<Rightarrow> error + string" where
  "create_swim_line sd data =
     (case map_of achToDnaTc (onus_tc data) of
        None \<Rightarrow> Inl KeyError
      | Some (descr, osi_tc) \<Rightarrow>
          Inr (swimFmt (onus_acctnbr data) osi_tc (onus_amt data) (effDate sd) descr
                 (onus_trace data) (CASH_BOX_NUMBER (args sd))))"

definition offset_gl :: "ScriptData \<Rightarrow> ScriptData" where
  "offset_gl sd = sd\<lparr>gl_cr_line := swimFmt (GL_ACCTNBR (args sd)) ''GLD'' (glDrAmt sd) (effDate sd)
                                       ''DNA ACH GL debit offset'' [] (CASH_BOX_NUMBER (args sd))\<rparr>"

text \<open>The loop of \<^verbatim>\<open>loop_through_onus_data_create_swim_file_and_stage_holds\<close>.  Staging a
  hold touches only the database, and its failure is caught and logged, so it does
  not appear here.\<close>

fun onus_loop :: "onus list \<Rightarrow> ScriptData \<Rightarrow> error + ScriptData" where
  "onus_loop [] sd = Inr sd"
| "onus_loop (data # ds) sd =
     (let sd1 = sd\<lparr>glDrAmt := glDrAmt sd + onus_amt data\<rparr>
      in case create_swim_line sd1 data of
           Inl e \<Rightarrow> Inl e
         | Inr swim_line \<Rightarrow>
             onus_loop ds (sd1\<lparr>swm_lines := swm_lines sd1 @ [swim_line],
                                swimCt := swimCt sd1 + 1\<rparr>))"

definition loop_through_onus_data :: "ScriptData \<Rightarrow> error + ScriptData \<times> string" where
  "loop_through_onus_data sd =
     (case onus_loop (all_onus_data sd) sd of
        Inl e \<Rightarrow> Inl e
      | Inr sd1 \<Rightarrow>
          (let sd2 = offset_gl sd1;
               sd3 = sd2\<lparr>swm_lines := swm_lines sd2 @ [gl_cr_line sd2]\<rparr>
           in Inr (sd3, file_text (swm_lines sd3))))"

text \<open>\<^verbatim>\<open>run\<close>, as far as the two output files: the rewritten payment file and the
  settlement file.\<close>

definition run :: "Args \<Rightarrow> string list \<Rightarrow> error + string \<times> string" where
  "run a achfile =
     (case parse_ach_file (initialize a) achfile of
        Inl e \<Rightarrow> Inl e
      | Inr sd1 \<Rightarrow>
          (case write_new_ach_file sd1 of
             Inl e \<Rightarrow> Inl e
           | Inr (sd2, ach_text) \<Rightarrow>
               (case loop_through_onus_data (get_swim_file_info sd2) of
                  Inl e \<Rightarrow> Inl e
                | Inr (sd3, swim_text) \<Rightarrow> Inr (ach_text, swim_text))))"

section \<open>Routing number validator\<close>

text \<open>\<^verbatim>\<open>str.isdigit\<close>: every character a digit in the wider sense, and at least one
  character.\<close>

definition isdigit :: "string \<Rightarrow> bool" where
  "isdigit s = (s \<noteq> [] \<and> list_all (\<lambda>c. is_digit c \<or> is_superscript c) s)"

definition fed_districts :: "string list" where
  "fed_districts =
     [''01'', ''02'', ''03'', ''04'', ''05'', ''06'', ''07'', ''08'', ''09'', ''10'', ''11'', ''12'',
      ''21'', ''22'', ''23'', ''24'', ''25'', ''26'', ''27'', ''28'', ''29'', ''20'', ''21'', ''22'',
      ''31'', ''32'', ''33'', ''34'', ''35'', ''36'', ''37'', ''38'', ''39'', ''30'', ''31'', ''32'']"

definition is_valid_fed_symbol :: "string \<Rightarrow> bool" where
  "is_valid_fed_symbol r = List.member fed_districts (slice 2 4 r)"

text \<open>\<^verbatim>\<open>[int(d) for d in rtnbr]\<close>: a character that is no decimal digit raises
  ValueError.\<close>

fun digits_of :: "string \<Rightarrow> error + int list" where
  "digits_of [] = Inr []"
| "digits_of (c # cs) =
     (case py_int [c] of
        None \<Rightarrow> Inl ValueError
      | Some v \<Rightarrow> (case digits_of cs of Inl e \<Rightarrow> Inl e | Inr vs \<Rightarrow> Inr (v # vs)))"

definition validate_routing_number_checksum :: "string \<Rightarrow> error + bool" where
  "validate_routing_number_checksum r =
     (case digits_of r of
        Inl e \<Rightarrow> Inl e
      | Inr digits \<Rightarrow>
          if length digits < 9 then Inl IndexError
          else Inr ((digits ! 0 * 3 + digits ! 1 * 7 + digits ! 2 * 1
                     + digits ! 3 * 3 + digits ! 4 * 7 + digits ! 5 * 1
                     + digits ! 6 * 3 + digits ! 7 * 7 + digits ! 8 * 1) mod 10 = 0))"

text \<open>\<^verbatim>\<open>validate_route_number\<close>: the returned flag together with the message printed.\<close>

definition validate_route_number :: "string \<Rightarrow> error + bool \<times> string list" where
  "validate_route_number r =
     (if \<not> isdigit r then Inr (False, [''Routing number must be all digits''])
      else if length r \<noteq> 9 then Inr (False, [''Routing number too short''])
      else if \<not> is_valid_fed_symbol r then Inr (False, [''Invalid fed district''])
      else (case validate_routing_number_checksum r of
              Inl e \<Rightarrow> Inl e
            | Inr ok \<Rightarrow> if \<not> ok then Inr (False, [''Invalid checksum'']) else Inr (True, [])))"

section \<open>Quantities the specification speaks of\<close>

text \<open>The value of a string of decimal digits.\<close>

definition dec_val :: "string \<Rightarrow> nat" where
  "dec_val s = foldl (\<lambda>a c. 10 * a + digit_val c) 0 s"

text \<open>A kept detail line is a kept line of type 6.  The field the entry hash sums is the
  first eight characters of its routing number, read as \<^verbatim>\<open>int\<close> reads them; its
  amount is the amount field, read the same way.\<close>

definition is_detail :: "string \<Rightarrow> bool" where
  "is_detail l = startswith l ''6''"

definition routing8 :: "string \<Rightarrow> int" where
  "routing8 l = (case py_int (take 8 (slice 3 12 l)) of Some v \<Rightarrow> v | None \<Rightarrow> 0)"

definition amount_of :: "string \<Rightarrow> int" where
  "amount_of l = (case py_int (amt_text l) of Some v \<Rightarrow> v | None \<Rightarrow> 0)"

text \<open>The sums over the kept lines of one batch (the lines after its header): routing
  numbers of the detail lines, amounts of the detail lines whose transaction code
  ends in 7, and amounts of those whose code ends in 2.\<close>

definition hash_sum :: "string list \<Rightarrow> int" where
  "hash_sum ls = sum_list (map routing8 (filter is_detail ls))"

definition debit_sum :: "string list \<Rightarrow> int" where
  "debit_sum ls = sum_list (map amount_of (filter (\<lambda>l. is_detail l \<and> endswith (slice 1 3 l) ''7'') ls))"

definition credit_sum :: "string list \<Rightarrow> int" where
  "credit_sum ls = sum_list (map amount_of (filter (\<lambda>l. is_detail l \<and> endswith (slice 1 3 l) ''2'') ls))"

text \<open>The rightmost ten characters of a total, written and read back as the code does.\<close>

definition hash10 :: "int \<Rightarrow> int" where
  "hash10 h = (case py_int (last_n 10 (py_str h)) of Some v \<Rightarrow> v | None \<Rightarrow> 0)"

text \<open>A stored batch is kept when at least one line follows its header.  The file
  control record follows the file header and the rebuilt batches, each of which is
  its stored lines and one control record.\<close>

definition kept :: "string list \<Rightarrow> bool" where
  "kept batch_data = (tl batch_data \<noteq> [])"

definition control_index :: "string list list \<Rightarrow> nat" where
  "control_index bs = 1 + sum_list (map (\<lambda>b. length b + 1) (filter kept bs))"

text \<open>Two run states with the same parsed state: batches, file header and run totals.\<close>

definition same_parsed :: "ScriptData \<Rightarrow> ScriptData \<Rightarrow> bool" where
  "same_parsed a b = (newach_data a = newach_data b \<and> file_header a = file_header b
     \<and> entry_hash_cnt a = entry_hash_cnt b \<and> total_credit a = total_credit b
     \<and> total_debit a = total_debit b \<and> total_record_cnt a = total_record_cnt b)"

text \<open>The settlement line of one on-us record.\<close>

definition settlement_line :: "ScriptData \<Rightarrow> onus \<Rightarrow> string" where
  "settlement_line sd data = (case create_swim_line sd data of Inr l \<Rightarrow> l | Inl e \<Rightarrow> [])"

text \<open>The transaction codes of a credit, the only ones the on-us filter lets through, and
  what holds of the parser's state between lines.\<close>

definition credit_code :: "onus \<Rightarrow> bool" where
  "credit_code d = (onus_tc d = ''22'' \<or> onus_tc d = ''32'')"

definition parse_inv :: "locals \<times> ScriptData \<Rightarrow> bool" where
  "parse_inv s = ((case onus_data (fst s) of None \<Rightarrow> True | Some d \<Rightarrow> credit_code d)
     \<and> list_all credit_code (all_onus_data (snd s))
     \<and> (is_onus (fst s) = [] \<or> onus_data (fst s) \<noteq> None))"

text \<open>The three checks of the routing number validator, as the specification words them,
  and the ASCII characters.\<close>

definition is_ascii :: "char \<Rightarrow> bool" where
  "is_ascii c = ((of_char c :: nat) < 128)"

definition nine_digits :: "string \<Rightarrow> bool" where
  "nine_digits r = (length r = 9 \<and> list_all is_digit r)"

definition district_ok :: "nat \<Rightarrow> bool" where
  "district_ok n = (1 \<le> n \<and> n \<le> 12 \<or> 20 \<le> n \<and> n \<le> 39)"

definition checksum_of :: "string \<Rightarrow> nat" where
  "checksum_of r = 3 * digit_val (r ! 0) + 7 * digit_val (r ! 1) + 1 * digit_val (r ! 2)
                 + 3 * digit_val (r ! 3) + 7 * digit_val (r ! 4) + 1 * digit_val (r ! 5)
                 + 3 * digit_val (r ! 6) + 7 * digit_val (r ! 7) + 1 * digit_val (r ! 8)"

section \<open>Example records\<close>

text \<open>A small payment file: a file header, a batch header, a credit and a debit to other
  institutions, a credit to the institution's own routing number, and addenda
  records with and without the external-transfer marker.\<close>

definition ex_args :: Args where
  "ex_args = \<lparr>FTFCU_ROUTENBR = ''321180379'', GL_ACCTNBR = ''1234567'',
              CASH_BOX_NUMBER = ''9001'', EFFDATE = ''20250811''\<rparr>"

definition ex_file_header :: string where
  "ex_file_header =
     ''101 06100014632118037922508110832A094101FRB ATLANTA            FIRST TECH FEDERAL CREDREF00001''"

definition ex_batch_header :: string where
  "ex_batch_header =
     ''5220FIRST TECH FCU                      1234567890PPDPAYROLL   250811250811   1061000140000007''"

definition ex_credit :: string where
  "ex_credit =
     ''622021000021            555010000002500ID0000001      ALICE ADAMS             0061000140000001''"

definition ex_debit :: string where
  "ex_debit =
     ''627061000146            555020000001000ID0000002      BOB BROWN               0061000140000002''"

definition ex_onus :: string where
  "ex_onus =
     ''622321180379            555030000012345ID0000003      JOHN DOE                1061000140000003''"

definition ex_addenda :: string where
  "ex_addenda =
     ''705EXT OAO JOHN DOE TRANSFER                                                       00010000003''"

definition ex_plain_addenda :: string where
  "ex_plain_addenda =
     ''705PAYROLL AUGUST                                                                  00010000003''"

definition ex_short_addenda :: string where
  "ex_short_addenda = ''705EXT OAO JOHN DOE TRANSFER''"

definition ex_batch_control :: string where
  "ex_batch_control =
     ''822000000200321180370000000000000000000123451234567890                         061000140000007''"

definition ex_file_control :: string where
  "ex_file_control =
     ''9000001000001000000020032118037000000000000000000012345''"

definition ex_parsed :: ScriptData where
  "ex_parsed = (initialize ex_args)\<lparr>newach_data := [[ex_batch_header, ex_credit]],
                                      file_header := ex_file_header\<rparr>"

definition ex_two_batches :: ScriptData where
  "ex_two_batches = (initialize ex_args)\<lparr>newach_data :=
       [[ex_batch_header, ex_credit, ex_debit, ex_plain_addenda], [ex_batch_header],
        [ex_batch_header, ex_debit]],
     file_header := ex_file_header\<rparr>"

definition ex_onus_record :: onus where
  "ex_onus_record = \<lparr>onus_rtnbr = ''321180379'', onus_acctnbr = ''55503'', onus_tc = ''22'',
     onus_amt = 12345, onus_trace = ''061000140000003'', onus_line = ex_onus,
     onus_desc = Some ''EXT OAO JOHN DOE TRANSFER''\<rparr>"

definition ex_pending :: locals where
  "ex_pending = \<lparr>current_batch = [ex_batch_header],
                  onus_data = Some (ex_onus_record\<lparr>onus_desc := None\<rparr>),
                  is_onus = ''0000003''\<rparr>"

definition ex_extracted :: ScriptData where
  "ex_extracted = (initialize ex_args)\<lparr>all_onus_data := [ex_onus_record]\<rparr>"

section \<open>Reading and writing decimal numbers\<close>

lemma is_digit_facts:
  assumes "is_digit c"
  shows "digit_val c < 10" and "\<not> int_space c" and "c \<noteq> CHR ''-''" and "c \<noteq> CHR ''+''"
  using assms by (auto simp: is_digit_def digit_val_def int_space_def)

lemma digit_char_facts:
  assumes "d < 10"
  shows "is_digit (digit_char d)" and "digit_val (digit_char d) = d"
proof -
  from assms have "d = 0 \<or> d = 1 \<or> d = 2 \<or> d = 3 \<or> d = 4 \<or> d = 5 \<or> d = 6 \<or> d = 7 \<or> d = 8 \<or> d = 9"
    by arith
  then show "is_digit (digit_char d)" and "digit_val (digit_char d) = d"
    by (auto simp: digit_char_def is_digit_def digit_val_def)
qed

lemma foldl_dec_shift:
  "foldl (\<lambda>a c. 10 * a + digit_val c) a s = a * 10 ^ length s + foldl (\<lambda>a c. 10 * a + digit_val c) 0 s"
proof (induction s arbitrary: a)
  case Nil
  show ?case by simp
next
  case (Cons c s)
  have "foldl (\<lambda>a c. 10 * a + digit_val c) a (c # s) = foldl (\<lambda>a c. 10 * a + digit_val c) (10 * a + digit_val c) s"
    by simp
  also have "\<dots> = (10 * a + digit_val c) * 10 ^ length s + foldl (\<lambda>a c. 10 * a + digit_val c) 0 s"
    by (rule Cons.IH)
  also have "foldl (\<lambda>a c. 10 * a + digit_val c) 0 (c # s) = digit_val c * 10 ^ length s + foldl (\<lambda>a c. 10 * a + digit_val c) 0 s"
    using Cons.IH [of "digit_val c"] by simp
  ultimately show ?case by (simp add: algebra_simps)
qed

lemma dec_val_append: "dec_val (a @ b) = dec_val a * 10 ^ length b + dec_val b"
  unfolding dec_val_def by (simp add: foldl_dec_shift [of "foldl _ _ a"])

lemma dec_val_bound: "list_all is_digit s \<Longrightarrow> dec_val s < 10 ^ length s"
proof (induction s rule: rev_induct)
  case Nil
  show ?case by (simp add: dec_val_def)
next
  case (snoc c s)
  then have "dec_val s < 10 ^ length s" and "digit_val c < 10"
    by (simp_all add: is_digit_facts)
  moreover have "dec_val (s @ [c]) = dec_val s * 10 + digit_val c"
    by (simp add: dec_val_append) (simp add: dec_val_def)
  ultimately show ?case by simp
qed

lemma int_digits_all:
  "list_all is_digit s \<Longrightarrow> int_digits a s = Some (foldl (\<lambda>a c. 10 * a + digit_val c) a s)"
  by (induction a s rule: int_digits.induct) simp_all

lemma int_strip_id:
  assumes "s \<noteq> []" and "\<not> int_space (hd s)" and "\<not> int_space (last s)"
  shows "int_strip s = s"
proof -
  from assms obtain x xs where s: "s = x # xs" by (cases s) auto
  with assms have "dropWhile int_space s = s" by simp
  moreover from assms obtain y ys where r: "rev s = y # ys" by (cases "rev s") auto
  then have "y = last s" using assms(1) by (metis hd_rev list.sel(1))
  with assms(3) have "dropWhile int_space (y # ys) = y # ys" by simp
  then have "dropWhile int_space (rev s) = rev s" unfolding r .
  ultimately show ?thesis by (simp add: int_strip_def)
qed

lemma py_int_digits:
  assumes "list_all is_digit s" and "s \<noteq> []"
  shows "py_int s = Some (int (dec_val s))"
proof -
  from assms obtain c cs where s: "s = c # cs" by (cases s) auto
  from assms have "is_digit (hd s)" "is_digit (last s)"
    by (auto simp: list_all_iff)
  then have "int_strip s = s"
    using assms(2) by (intro int_strip_id) (auto dest: is_digit_facts)
  moreover have "is_digit c" and "list_all is_digit cs" using assms s by auto
  moreover then have "int_digits (digit_val c) cs = Some (dec_val (c # cs))"
    by (simp add: int_digits_all dec_val_def)
  ultimately show ?thesis
    using s by (auto simp: py_int_def int_unsigned_def dest: is_digit_facts)
qed

text \<open>The two kinds of whitespace apart: \<^verbatim>\<open>str.strip\<close> removes a file separator (U+001C)
  and \<^verbatim>\<open>int\<close> raises ValueError on it; both take a no-break space (U+00A0).\<close>

lemma int_whitespace:
  "strip (CHR 0x1C # ''5'') = ''5''"
  "py_int (CHR 0x1C # ''5'') = None"
  "strip (CHR 0xA0 # ''5'') = ''5''"
  "py_int (CHR 0xA0 # ''5'') = Some 5"
  "py_int '' 12_345 '' = Some 12345"
  "py_int ''-7'' = Some (- 7)"
  "py_int ''1 2'' = None"
  by (simp_all add: strip_def isspace_def py_int_def int_strip_def int_space_def
        int_unsigned_def is_digit_def digit_val_def)

lemma nat_str_digits: "list_all is_digit (nat_str n) \<and> nat_str n \<noteq> [] \<and> dec_val (nat_str n) = n"
proof (induction n rule: nat_str.induct)
  case (1 n)
  show ?case
  proof (cases "n < 10")
    case True
    then show ?thesis
      by (simp add: nat_str.simps [of n] digit_char_facts dec_val_def)
  next
    case False
    have m: "n mod 10 < 10" by simp
    from False 1 have ih: "list_all is_digit (nat_str (n div 10))" "dec_val (nat_str (n div 10)) = n div 10"
      by auto
    have "dec_val (nat_str n) = dec_val (nat_str (n div 10)) * 10 + digit_val (digit_char (n mod 10))"
      using False by (simp add: nat_str.simps [of n] dec_val_append) (simp add: dec_val_def)
    with ih m False show ?thesis
      by (simp add: nat_str.simps [of n] digit_char_facts)
  qed
qed

lemma dec_val_last_n:
  assumes "list_all is_digit s"
  shows "dec_val (last_n k s) = dec_val s mod 10 ^ k"
proof -
  define m where "m = length s - k"
  have split: "s = take m s @ drop m s" by simp
  have d: "list_all is_digit (drop m s)"
    using assms by (auto simp: list_all_iff dest: in_set_dropD)
  have len: "length (drop m s) \<le> k" by (simp add: m_def)
  have "dec_val s = dec_val (take m s) * 10 ^ length (drop m s) + dec_val (drop m s)"
    using dec_val_append [of "take m s" "drop m s"] by simp
  show ?thesis
  proof (cases "k \<le> length s")
    case True
    then have l: "length (drop m s) = k" by (simp add: m_def)
    have "dec_val s = dec_val (take m s) * 10 ^ k + dec_val (drop m s)"
      using dec_val_append [of "take m s" "drop m s"] l by simp
    moreover have "dec_val (drop m s) < 10 ^ k"
      using dec_val_bound [OF d] l by simp
    ultimately show ?thesis by (simp add: last_n_def m_def)
  next
    case False
    then have "m = 0" by (simp add: m_def)
    moreover have "dec_val s < 10 ^ k"
    proof -
      have "dec_val s < 10 ^ length s" by (rule dec_val_bound [OF assms])
      also have "(10::nat) ^ length s \<le> 10 ^ k" using False by (intro power_increasing) auto
      finally show ?thesis .
    qed
    ultimately show ?thesis by (simp add: last_n_def m_def)
  qed
qed

text \<open>Writing a non-negative total, keeping its last ten characters and reading them
  back gives the total modulo \<open>10 ^ 10\<close>.\<close>

lemma rightmost10:
  assumes "0 \<le> h"
  shows "py_int (last_n 10 (py_str h)) = Some (h mod 10 ^ 10)"
proof -
  define n where "n = nat h"
  have h: "h = int n" using assms by (simp add: n_def)
  have s: "py_str h = nat_str n" using assms by (simp add: py_str_def n_def)
  have d: "list_all is_digit (last_n 10 (nat_str n))"
    using nat_str_digits [of n] by (auto simp: list_all_iff last_n_def dest: in_set_dropD)
  have ne: "last_n 10 (nat_str n) \<noteq> []"
    using nat_str_digits [of n] by (cases "nat_str n") (auto simp: last_n_def)
  have "py_int (last_n 10 (nat_str n)) = Some (int (dec_val (last_n 10 (nat_str n))))"
    by (rule py_int_digits [OF d ne])
  also have "dec_val (last_n 10 (nat_str n)) = n mod 10 ^ 10"
    using dec_val_last_n [of "nat_str n" 10] nat_str_digits [of n] by simp
  finally have "py_int (last_n 10 (nat_str n)) = Some (int n mod 10 ^ 10)"
    by (simp add: zmod_int)
  then show ?thesis unfolding s [symmetric] h [symmetric] .
qed

lemma hash10_nonneg: "0 \<le> h \<Longrightarrow> hash10 h = h mod 10 ^ 10"
  by (simp add: hash10_def rightmost10)

section \<open>Evaluating the example records\<close>

lemma replicate_numeral: "replicate (numeral k) x = x # replicate (pred_numeral k) x"
  by (simp add: numeral_eq_Suc)

lemmas text_eval = replicate_numeral Let_def
  isspace_def is_digit_def digit_val_def digit_char_def strip_def startswith_def endswith_def
  suffix_to_prefix slice_def last_n_def drop_last_n_def nat_str.simps py_str_def int_unsigned_def
  int_space_def int_strip_def py_int_def rjust_def ljust_def fmt_0d_def amt_text_def parse_ach_detail_record_def

lemmas example_defs =
  ex_file_header_def ex_batch_header_def ex_credit_def ex_debit_def ex_onus_def
  ex_addenda_def ex_plain_addenda_def ex_short_addenda_def ex_batch_control_def
  ex_file_control_def

lemma ex_strip:
  "strip ex_file_header = ex_file_header"
  "strip ex_batch_header = ex_batch_header"
  "strip ex_onus = ex_onus"
  "strip ex_addenda = ex_addenda"
  "strip ex_short_addenda = ex_short_addenda"
  "strip ex_batch_control = ex_batch_control"
  "strip ex_file_control = ex_file_control"
  by (simp_all add: text_eval example_defs)

lemma ex_nonempty:
  "ex_file_header \<noteq> []"
  "ex_batch_header \<noteq> []"
  "ex_onus \<noteq> []"
  "ex_addenda \<noteq> []"
  "ex_short_addenda \<noteq> []"
  "ex_batch_control \<noteq> []"
  "ex_file_control \<noteq> []"
  by (simp_all add: example_defs)

lemma ex_kind:
  "startswith ex_file_header ''101'' = True"
  "startswith ex_file_header ''9'' = False"
  "startswith ex_file_header ''8'' = False"
  "startswith ex_file_header ''5'' = False"
  "startswith ex_file_header ''7'' = False"
  "startswith ex_file_header ''6'' = False"
  "startswith ex_batch_header ''101'' = False"
  "startswith ex_batch_header ''9'' = False"
  "startswith ex_batch_header ''8'' = False"
  "startswith ex_batch_header ''5'' = True"
  "startswith ex_batch_header ''7'' = False"
  "startswith ex_batch_header ''6'' = False"
  "startswith ex_onus ''101'' = False"
  "startswith ex_onus ''9'' = False"
  "startswith ex_onus ''8'' = False"
  "startswith ex_onus ''5'' = False"
  "startswith ex_onus ''7'' = False"
  "startswith ex_onus ''6'' = True"
  "startswith ex_addenda ''101'' = False"
  "startswith ex_addenda ''9'' = False"
  "startswith ex_addenda ''8'' = False"
  "startswith ex_addenda ''5'' = False"
  "startswith ex_addenda ''7'' = True"
  "startswith ex_addenda ''6'' = False"
  "startswith ex_short_addenda ''101'' = False"
  "startswith ex_short_addenda ''9'' = False"
  "startswith ex_short_addenda ''8'' = False"
  "startswith ex_short_addenda ''5'' = False"
  "startswith ex_short_addenda ''7'' = True"
  "startswith ex_short_addenda ''6'' = False"
  "startswith ex_batch_control ''101'' = False"
  "startswith ex_batch_control ''9'' = False"
  "startswith ex_batch_control ''8'' = True"
  "startswith ex_batch_control ''5'' = False"
  "startswith ex_batch_control ''7'' = False"
  "startswith ex_batch_control ''6'' = False"
  "startswith ex_file_control ''101'' = False"
  "startswith ex_file_control ''9'' = True"
  "startswith ex_file_control ''8'' = False"
  "startswith ex_file_control ''5'' = False"
  "startswith ex_file_control ''7'' = False"
  "startswith ex_file_control ''6'' = False"
  by (simp_all add: startswith_def example_defs)

lemma ex_onus_detail:
  "is_onus_detail ''321180379'' ex_onus"
  "parse_ach_detail_record ex_onus
     = Inr \<lparr>rtnbr = ''321180379'', acctnbr = ''55503'', ach_tc = ''22'', amt = 12345,
            trace_nbr = ''061000140000003'', sequence_nbr = ''0000003'', has_addenda = ''1''\<rparr>"
  by (simp_all add: is_onus_detail_def text_eval example_defs)

lemma ex_addenda_marker:
  "contains ''EXT OAO'' ex_addenda"
  "contains ''EXT OAO'' ex_short_addenda"
  "\<not> contains ''EXT OAO'' ex_plain_addenda"
  by (simp_all add: example_defs)

lemma ex_addenda_shape:
  "addenda_match ex_short_addenda = None"
  "addenda_match ex_addenda
     = Some ''EXT OAO JOHN DOE TRANSFER                                                       00010000''"
  "take 128 (strip ''EXT OAO JOHN DOE TRANSFER                                                       00010000'')
     = ''EXT OAO JOHN DOE TRANSFER                                                       00010000''"
  "take 128 (strip (slice 3 83 ex_addenda)) = ''EXT OAO JOHN DOE TRANSFER''"
  by (simp_all add: addenda_match_def text_eval example_defs)

lemma ex_batch_header_fields:
  "slice 1 4 ex_batch_header = ''220''"
  "slice 40 49 ex_batch_header = ''123456789''"
  "slice 40 50 ex_batch_header = ''1234567890''"
  "slice 79 87 ex_batch_header = ''06100014''"
  by (simp_all add: slice_def example_defs)

lemma ex_detail_values:
  "is_detail ex_credit" "is_detail ex_debit" "\<not> is_detail ex_plain_addenda"
  "routing8 ex_credit = 2100002" "routing8 ex_debit = 6100014"
  "amount_of ex_credit = 2500" "amount_of ex_debit = 1000"
  "endswith (slice 1 3 ex_credit) ''2''" "\<not> endswith (slice 1 3 ex_credit) ''7''"
  "endswith (slice 1 3 ex_debit) ''7''" "\<not> endswith (slice 1 3 ex_debit) ''2''"
  by (simp_all add: is_detail_def routing8_def amount_of_def text_eval example_defs)

lemma ex_sums:
  "hash_sum [ex_credit, ex_debit, ex_plain_addenda] = 8200016"
  "debit_sum [ex_credit, ex_debit, ex_plain_addenda] = 1000"
  "credit_sum [ex_credit, ex_debit, ex_plain_addenda] = 2500"
  "hash_sum [ex_credit] = 2100002" "debit_sum [ex_credit] = 0" "credit_sum [ex_credit] = 2500"
  "hash_sum [ex_debit] = 6100014" "debit_sum [ex_debit] = 1000" "credit_sum [ex_debit] = 0"
  by (simp_all add: hash_sum_def debit_sum_def credit_sum_def ex_detail_values del: One_nat_def)

lemma ex_batch_loop:
  "batch_loop (ex_credit # ls) (h, d, c, n, nb)
     = batch_loop ls (h + 2100002, d, c + 2500, n + 1, nb @ [ex_credit])"
  "batch_loop (ex_debit # ls) (h, d, c, n, nb)
     = batch_loop ls (h + 6100014, d + 1000, c, n + 1, nb @ [ex_debit])"
  "batch_loop (ex_plain_addenda # ls) (h, d, c, n, nb)
     = batch_loop ls (h, d, c, n + 1, nb @ [ex_plain_addenda])"
  by (simp_all add: text_eval example_defs)

lemma ex_rebuild_batch:
  "rebuild_batch sd [ex_batch_header, ex_credit, ex_debit, ex_plain_addenda] k
     = Inr (sd\<lparr>entry_hash_cnt := entry_hash_cnt sd + 8200016,
               total_credit := total_credit sd + 2500,
               total_debit := total_debit sd + 1000,
               total_record_cnt := total_record_cnt sd + 3\<rparr>,
            [drop_last_n 7 ex_batch_header @ fmt_0d 7 k, ex_credit, ex_debit, ex_plain_addenda,
             batch_control_footer ''220'' 3 8200016 1000 2500 ''123456789'' ''06100014''
               (fmt_0d 7 k)])"
  "rebuild_batch sd [ex_batch_header, ex_credit] k
     = Inr (sd\<lparr>entry_hash_cnt := entry_hash_cnt sd + 2100002,
               total_credit := total_credit sd + 2500,
               total_debit := total_debit sd + 0,
               total_record_cnt := total_record_cnt sd + 1\<rparr>,
            [drop_last_n 7 ex_batch_header @ fmt_0d 7 k, ex_credit,
             batch_control_footer ''220'' 1 2100002 0 2500 ''123456789'' ''06100014''
               (fmt_0d 7 k)])"
  "rebuild_batch sd [ex_batch_header, ex_debit] k
     = Inr (sd\<lparr>entry_hash_cnt := entry_hash_cnt sd + 6100014,
               total_credit := total_credit sd + 0,
               total_debit := total_debit sd + 1000,
               total_record_cnt := total_record_cnt sd + 1\<rparr>,
            [drop_last_n 7 ex_batch_header @ fmt_0d 7 k, ex_debit,
             batch_control_footer ''220'' 1 6100014 1000 0 ''123456789'' ''06100014''
               (fmt_0d 7 k)])"
  "rebuild_batch sd [ex_batch_header] k = Inr (sd, [])"
  by (simp_all add: rebuild_batch_def Let_def ex_batch_loop rightmost10 ex_batch_header_fields
        del: batch_loop.simps(2) One_nat_def)

lemma ex_rebuild_file:
  "rebuild_file ex_parsed
     = Inr (ex_parsed\<lparr>entry_hash_cnt := 2100002, total_credit := 2500, total_debit := 0,
                       total_record_cnt := 1\<rparr>,
            [ex_file_header, drop_last_n 7 ex_batch_header @ fmt_0d 7 1, ex_credit,
             batch_control_footer ''220'' 1 2100002 0 2500 ''123456789'' ''06100014'' (fmt_0d 7 1),
             file_control_footer 1 1 1 2100002 0 2500,
             replicate 94 (CHR ''9''), replicate 94 (CHR ''9''), replicate 94 (CHR ''9''),
             replicate 94 (CHR ''9''), replicate 94 (CHR ''9'')])"
  "rebuild_file ex_two_batches
     = Inr (ex_two_batches\<lparr>entry_hash_cnt := 14300030, total_credit := 2500,
                            total_debit := 2000, total_record_cnt := 4\<rparr>,
            [ex_file_header,
             drop_last_n 7 ex_batch_header @ fmt_0d 7 1, ex_credit, ex_debit, ex_plain_addenda,
             batch_control_footer ''220'' 3 8200016 1000 2500 ''123456789'' ''06100014'' (fmt_0d 7 1),
             drop_last_n 7 ex_batch_header @ fmt_0d 7 2, ex_debit,
             batch_control_footer ''220'' 1 6100014 1000 0 ''123456789'' ''06100014'' (fmt_0d 7 2),
             file_control_footer 2 1 4 14300030 2000 2500])"
  by (simp_all add: rebuild_file_def Let_def ex_rebuild_batch rightmost10 extra_lines_def
        ex_parsed_def ex_two_batches_def initialize_def replicate_numeral)

section \<open>The batch control record\<close>

lemma suffix_single_unique: "suffix [a] s \<Longrightarrow> suffix [b] s \<Longrightarrow> a = b"
  by (auto simp: suffix_def)

lemma parse_detail_fields:
  assumes "parse_ach_detail_record r = Inr d"
  shows "rtnbr d = slice 3 12 r" and "ach_tc d = slice 1 3 r" and "py_int (amt_text r) = Some (amt d)"
  using assms by (auto simp: parse_ach_detail_record_def split: option.splits if_splits)

text \<open>The loop adds each kept line to the count and each detail line to the totals.\<close>

lemma batch_loop_acc:
  "batch_loop ls (h, d, c, n, nb) = Inr (h', d', c', n', nb') \<Longrightarrow>
     h' = h + hash_sum ls \<and> d' = d + debit_sum ls \<and> c' = c + credit_sum ls
     \<and> n' = n + int (length ls) \<and> nb' = nb @ ls"
proof (induction ls arbitrary: h d c n nb)
  case Nil
  then show ?case by (simp add: hash_sum_def debit_sum_def credit_sum_def)
next
  case (Cons l ls)
  show ?case
  proof (cases "startswith l ''6''")
    case False
    with Cons.prems have "batch_loop ls (h, d, c, n + 1, nb @ [l]) = Inr (h', d', c', n', nb')"
      by simp
    from Cons.IH [OF this] False show ?thesis
      by (simp add: hash_sum_def debit_sum_def credit_sum_def is_detail_def)
  next
    case True
    with Cons.prems obtain r v where r: "parse_ach_detail_record l = Inr r"
      and v: "py_int (take 8 (rtnbr r)) = Some v"
      by (auto split: sum.splits option.splits)
    note f = parse_detail_fields [OF r]
    have r8: "routing8 l = v" using v f by (simp add: routing8_def)
    have am: "amount_of l = amt r" using f by (simp add: amount_of_def)
    consider (credit) "endswith (slice 1 3 l) ''2''"
      | (debit) "\<not> endswith (slice 1 3 l) ''2''" "endswith (slice 1 3 l) ''7''"
      | (other) "\<not> endswith (slice 1 3 l) ''2''" "\<not> endswith (slice 1 3 l) ''7''"
      by blast
    then show ?thesis
    proof cases
      case credit
      then have n7: "\<not> endswith (slice 1 3 l) ''7''"
        by (auto simp: endswith_def dest: suffix_single_unique)
      from Cons.prems True r v f credit
      have "batch_loop ls (h + v, d, c + amt r, n + 1, nb @ [l]) = Inr (h', d', c', n', nb')"
        by simp
      from Cons.IH [OF this] True credit n7 r8 am show ?thesis
        by (simp add: hash_sum_def debit_sum_def credit_sum_def is_detail_def)
    next
      case debit
      from Cons.prems True r v f debit
      have "batch_loop ls (h + v, d + amt r, c, n + 1, nb @ [l]) = Inr (h', d', c', n', nb')"
        by simp
      from Cons.IH [OF this] True debit r8 am show ?thesis
        by (simp add: hash_sum_def debit_sum_def credit_sum_def is_detail_def)
    next
      case other
      from Cons.prems True r v f other
      have "batch_loop ls (h + v, d, c, n + 1, nb @ [l]) = Inr (h', d', c', n', nb')"
        by simp
      from Cons.IH [OF this] True other r8 am show ?thesis
        by (simp add: hash_sum_def debit_sum_def credit_sum_def is_detail_def)
    qed
  qed
qed

text \<open>A number that fits its field is written at the width of the field, in decimal
  digits that read back as the number; a wider number is written whole, and the
  zeros follow a minus sign.\<close>

lemma fmt_0d_wide:
  "fmt_0d 6 1234567 = ''1234567''"
  "fmt_0d 6 (- 5) = ''-00005''"
  "fmt_0d 6 42 = ''000042''"
  by (simp_all add: fmt_0d_def rjust_def nat_str.simps digit_char_def replicate_numeral)

lemma nat_str_length: "n < 10 ^ w \<Longrightarrow> 0 < w \<Longrightarrow> length (nat_str n) \<le> w"
proof (induction n arbitrary: w rule: nat_str.induct)
  case (1 n)
  show ?case
  proof (cases "n < 10")
    case True
    then show ?thesis using 1(3) by (simp add: nat_str.simps [of n])
  next
    case False
    from 1(3) obtain v where w: "w = Suc v" by (cases w) auto
    from False 1(2) w have "0 < v" by (cases v) auto
    moreover from 1(2) w have "n div 10 < 10 ^ v" by simp
    ultimately have "length (nat_str (n div 10)) \<le> v" using 1(1) [OF False] by blast
    then show ?thesis using False w by (simp add: nat_str.simps [of n])
  qed
qed

lemma dec_val_zeros: "dec_val (replicate k (CHR ''0'') @ s) = dec_val s"
proof -
  have "dec_val (replicate k (CHR ''0'')) = 0"
    by (induction k) (simp_all add: dec_val_def digit_val_def)
  then show ?thesis by (simp add: dec_val_append)
qed

lemma fmt_0d_reads_back:
  assumes "0 \<le> i" and "i < 10 ^ w" and "0 < w"
  shows "length (fmt_0d w i) = w" and "py_int (fmt_0d w i) = Some i"
proof -
  define n where "n = nat i"
  note d = nat_str_digits [of n]
  have "int n < int (10 ^ w)" using assms(1,2) by (simp add: n_def)
  then have "n < 10 ^ w" by (simp only: of_nat_less_iff)
  then have len: "length (nat_str n) \<le> w" using assms(3) by (rule nat_str_length)
  have f: "fmt_0d w i = replicate (w - length (nat_str n)) (CHR ''0'') @ nat_str n"
    using assms(1) by (simp add: fmt_0d_def rjust_def n_def)
  show "length (fmt_0d w i) = w" using len by (simp add: f)
  have "list_all is_digit (replicate k (CHR ''0''))" for k
    by (induction k) (simp_all add: is_digit_def)
  then have "list_all is_digit (fmt_0d w i)" and "fmt_0d w i \<noteq> []"
    using d by (simp_all add: f)
  then have "py_int (fmt_0d w i) = Some (int (dec_val (fmt_0d w i)))"
    by (rule py_int_digits)
  also have "dec_val (fmt_0d w i) = n" using d by (simp add: f dec_val_zeros)
  finally show "py_int (fmt_0d w i) = Some i" using assms(1) by (simp add: n_def)
qed

text \<open>Claim C1.  Every kept batch is rebuilt as its header with the new batch number, its
  kept lines, and a control record.  The control record is the text 8, the service
  class code of the header, the number of kept lines after the header at six digits,
  the sum of the first eight routing digits of the kept detail lines modulo \<open>10 ^ 10\<close>
  at ten digits, the sums of the amounts with a transaction code ending in 7 and in
  2 at twelve digits each, nine characters of company identification, 18 blanks of
  message authentication code and 8 reserved blanks, the originating bank of the
  header, and the batch number padded with zeros to seven digits.  Routing digits are non-negative, which is all the theorem asks of
  the sum.\<close>

theorem rebuild_batch_control:
  assumes "rebuild_batch sd batch_data control_nbr = Inr (sd', new_batch)"
    and "new_batch \<noteq> []"
    and "0 \<le> hash_sum (tl batch_data)"
  shows "new_batch = (drop_last_n 7 (hd batch_data) @ fmt_0d 7 control_nbr) # tl batch_data
           @ [''8'' @ slice 1 4 (hd batch_data)
                @ fmt_0d 6 (int (length (tl batch_data)))
                @ fmt_0d 10 (hash_sum (tl batch_data) mod 10 ^ 10)
                @ fmt_0d 12 (debit_sum (tl batch_data))
                @ fmt_0d 12 (credit_sum (tl batch_data))
                @ slice 40 49 (hd batch_data)
                @ replicate 18 (CHR '' '') @ replicate 8 (CHR '' '')
                @ slice 79 87 (hd batch_data)
                @ fmt_0d 7 control_nbr]"
proof -
  from assms(1,2) obtain hd0 body where b: "batch_data = hd0 # body"
    by (cases batch_data) (auto simp: rebuild_batch_def)
  from assms(1,2) b obtain h d c n nb where
    loop: "batch_loop body (0, 0, 0, 0, [drop_last_n 7 hd0 @ fmt_0d 7 control_nbr]) = Inr (h, d, c, n, nb)"
    by (auto simp: rebuild_batch_def Let_def split: sum.splits)
  from batch_loop_acc [OF loop] have acc: "h = hash_sum body" "d = debit_sum body"
    "c = credit_sum body" "n = int (length body)"
    "nb = [drop_last_n 7 hd0 @ fmt_0d 7 control_nbr] @ body"
    by simp_all
  have eh: "py_int (last_n 10 (py_str h)) = Some (h mod 10 ^ 10)"
    using assms(3) b acc by (intro rightmost10) simp
  from assms(1,2) b loop eh acc show ?thesis
    by (auto simp: rebuild_batch_def batch_control_footer_def Let_def split: if_splits)
qed

text \<open>The batch of the example: three kept lines, of which a credit of 2500 to routing
  number 02100002(1) and a debit of 1000 to 06100014(6).\<close>

theorem rebuild_batch_control_witness:
  "map_sum id snd
     (rebuild_batch (initialize ex_args) [ex_batch_header, ex_credit, ex_debit, ex_plain_addenda] 1)
   = Inr [drop_last_n 7 ex_batch_header @ ''0000001'', ex_credit, ex_debit, ex_plain_addenda,
          ''82200000030008200016000000001000000000002500123456789                          061000140000001'']
   \<and> 0 \<le> hash_sum [ex_credit, ex_debit, ex_plain_addenda]"
proof -
  let ?b = "[ex_batch_header, ex_credit, ex_debit, ex_plain_addenda]"
  let ?r = "rebuild_batch (initialize ex_args) ?b 1"
  have r: "\<not> isl ?r" by (simp add: ex_rebuild_batch)
  then have e: "?r = Inr (fst (projr ?r), snd (projr ?r))" by (simp add: sum.collapse)
  have ne: "snd (projr ?r) \<noteq> []" by (simp add: ex_rebuild_batch)
  have h: "0 \<le> hash_sum (tl ?b)" by (simp add: ex_sums)
  have f: "fmt_0d 7 1 = ''0000001''" "fmt_0d 6 3 = ''000003''"
    "fmt_0d 10 8200016 = ''0008200016''" "fmt_0d 12 1000 = ''000000001000''"
    "fmt_0d 12 2500 = ''000000002500''"
    "replicate 18 (CHR '' '') = ''                  ''"
    "replicate 8 (CHR '' '') = ''        ''"
    by (simp_all add: text_eval)
  from rebuild_batch_control [OF e ne h] have "snd (projr ?r)
      = [drop_last_n 7 ex_batch_header @ ''0000001'', ex_credit, ex_debit, ex_plain_addenda,
         ''82200000030008200016000000001000000000002500123456789                          061000140000001'']"
    by (simp add: ex_sums ex_batch_header_fields f del: One_nat_def)
  with r h show ?thesis by (cases ?r) simp_all
qed

text \<open>Claim C7.  The control record takes the company identification from
  \<^verbatim>\<open>batch_header[40:49]\<close>, nine characters, where the header field (positions 41 to
  50, as the source's own comment says) has ten: the last character of the field is
  lost, and the record continues with blanks.\<close>

theorem company_identification_truncated:
  "map_sum id snd (rebuild_batch (initialize ex_args) [ex_batch_header, ex_credit] 1)
   = Inr [drop_last_n 7 ex_batch_header @ ''0000001'', ex_credit,
          ''82200000010002100002000000000000000000002500123456789                          061000140000001'']
   \<and> slice 40 50 ex_batch_header = ''1234567890''
   \<and> slice 44 54 ''82200000010002100002000000000000000000002500123456789                          061000140000001''
       = ''123456789 ''"
proof -
  have "batch_control_footer ''220'' 1 2100002 0 2500 ''123456789'' ''06100014'' (fmt_0d 7 1)
          = ''82200000010002100002000000000000000000002500123456789                          061000140000001''"
    by (simp add: batch_control_footer_def text_eval)
  moreover have "fmt_0d 7 1 = ''0000001''"
    by (simp add: text_eval)
  moreover have "slice 44 54 ''82200000010002100002000000000000000000002500123456789                          061000140000001''
                   = ''123456789 ''"
    by (simp add: slice_def)
  ultimately show ?thesis
    by (simp add: ex_rebuild_batch ex_batch_header_fields)
qed

section \<open>The file control record and the padding\<close>

lemma rebuild_batch_dropped:
  assumes "rebuild_batch sd b k = Inr (sd', out)" and "\<not> kept b"
  shows "sd' = sd \<and> out = []"
proof (cases b)
  case Nil
  with assms show ?thesis by (simp add: rebuild_batch_def)
next
  case (Cons h body)
  with assms have "body = []" by (simp add: kept_def)
  with assms Cons show ?thesis by (simp add: rebuild_batch_def)
qed

lemma rebuild_batch_kept:
  assumes "rebuild_batch sd b k = Inr (sd', out)" and "kept b"
  shows "sd' = sd\<lparr>entry_hash_cnt := entry_hash_cnt sd + hash10 (hash_sum (tl b)),
                  total_credit := total_credit sd + credit_sum (tl b),
                  total_debit := total_debit sd + debit_sum (tl b),
                  total_record_cnt := total_record_cnt sd + int (length (tl b))\<rparr>"
    and "out \<noteq> []" and "length out = length b + 1"
proof -
  from assms obtain hd0 body where b: "b = hd0 # body" and body: "body \<noteq> []"
    by (cases b) (auto simp: kept_def)
  from assms(1) b obtain h d c n nb where
    loop: "batch_loop body (0, 0, 0, 0, [drop_last_n 7 hd0 @ fmt_0d 7 k]) = Inr (h, d, c, n, nb)"
    by (auto simp: rebuild_batch_def Let_def split: sum.splits)
  from batch_loop_acc [OF loop] have acc: "h = hash_sum body" "d = debit_sum body"
    "c = credit_sum body" "n = int (length body)"
    "nb = [drop_last_n 7 hd0 @ fmt_0d 7 k] @ body"
    by simp_all
  from body acc have n0: "n \<noteq> 0" by simp
  from assms(1) b loop n0 obtain eh where eh: "py_int (last_n 10 (py_str h)) = Some eh"
    by (auto simp: rebuild_batch_def Let_def split: option.splits)
  then have h10: "hash10 (hash_sum body) = eh" using acc by (simp add: hash10_def)
  from assms(1) b loop n0 eh acc h10
  show "sd' = sd\<lparr>entry_hash_cnt := entry_hash_cnt sd + hash10 (hash_sum (tl b)),
                  total_credit := total_credit sd + credit_sum (tl b),
                  total_debit := total_debit sd + debit_sum (tl b),
                  total_record_cnt := total_record_cnt sd + int (length (tl b))\<rparr>"
    and "out \<noteq> []" and "length out = length b + 1"
    by (auto simp: rebuild_batch_def Let_def)
qed

lemma file_loop_acc:
  "file_loop bs (sd, k, out) = Inr (sd', k', out') \<Longrightarrow>
     k' = k + int (length (filter kept bs))
     \<and> length out' = length out + sum_list (map (\<lambda>b. length b + 1) (filter kept bs))
     \<and> entry_hash_cnt sd' = entry_hash_cnt sd
          + sum_list (map (\<lambda>b. hash10 (hash_sum (tl b))) (filter kept bs))
     \<and> total_credit sd' = total_credit sd + sum_list (map (\<lambda>b. credit_sum (tl b)) (filter kept bs))
     \<and> total_debit sd' = total_debit sd + sum_list (map (\<lambda>b. debit_sum (tl b)) (filter kept bs))
     \<and> total_record_cnt sd' = total_record_cnt sd
          + sum_list (map (\<lambda>b. int (length (tl b))) (filter kept bs))"
proof (induction bs arbitrary: sd k out)
  case Nil
  then show ?case by simp
next
  case (Cons b bs)
  from Cons.prems obtain sd1 bf where rb: "rebuild_batch sd b (k + 1) = Inr (sd1, bf)"
    by (auto split: sum.splits)
  show ?case
  proof (cases "kept b")
    case False
    from rebuild_batch_dropped [OF rb False] have d: "sd1 = sd" "bf = []" by simp_all
    with Cons.prems rb have "file_loop bs (sd, k, out) = Inr (sd', k', out')" by simp
    from Cons.IH [OF this] False show ?thesis by simp
  next
    case True
    note r = rebuild_batch_kept [OF rb True]
    with Cons.prems rb have "file_loop bs (sd1, k + 1, out @ bf) = Inr (sd', k', out')" by simp
    from Cons.IH [OF this] True r show ?thesis by simp
  qed
qed

lemma rebuild_file_shape:
  assumes "rebuild_file sd = Inr (sd', out)"
  shows "\<exists>k pre. file_loop (newach_data sd) (sd, 0, [file_header sd]) = Inr (sd', k, pre)
           \<and> length pre = control_index (newach_data sd)
           \<and> out = pre @ [file_control_footer k (int ((length pre + 1 + extra_lines (length pre + 1)) div 10))
                             (total_record_cnt sd') (hash10 (entry_hash_cnt sd'))
                             (total_debit sd') (total_credit sd')]
                     @ replicate (extra_lines (length pre + 1)) (replicate 94 (CHR ''9''))"
proof -
  from assms obtain k pre where
    fl: "file_loop (newach_data sd) (sd, 0, [file_header sd]) = Inr (sd', k, pre)"
    by (auto simp: rebuild_file_def Let_def split: sum.splits option.splits)
  from file_loop_acc [OF fl] have len: "length pre = control_index (newach_data sd)"
    by (simp add: control_index_def)
  from assms fl have "out = pre @ [file_control_footer k (int ((length pre + 1 + extra_lines (length pre + 1)) div 10))
                             (total_record_cnt sd') (hash10 (entry_hash_cnt sd'))
                             (total_debit sd') (total_credit sd')]
                     @ replicate (extra_lines (length pre + 1)) (replicate 94 (CHR ''9''))"
    by (auto simp: rebuild_file_def Let_def hash10_def split: option.splits)
  with fl len show ?thesis by blast
qed

lemma extra_lines_facts: "extra_lines n < 10" "(n + extra_lines n) mod 10 = 0"
  by (auto simp: extra_lines_def) presburger

lemma sum_list_mod_mod:
  "sum_list (map (\<lambda>x. f x mod m) xs) mod m = sum_list (map f xs) mod (m::int)"
proof (induction xs)
  case Nil
  show ?case by simp
next
  case (Cons x xs)
  have "(f x mod m + sum_list (map (\<lambda>x. f x mod m) xs)) mod m
        = (f x + sum_list (map (\<lambda>x. f x mod m) xs) mod m) mod m"
    by (simp add: mod_simps)
  also have "\<dots> = (f x + sum_list (map f xs)) mod m"
    by (simp add: Cons.IH mod_simps)
  finally show ?case by simp
qed

text \<open>Claim C5.  The rewritten file has a multiple of ten lines: the file header and the
  rebuilt batches, the file control record, and then between zero and nine padding
  lines of ninety-four 9s.  The file control record is the text 9, the batch count
  at six digits, the block count at six digits, which is the number of lines of the
  file divided by ten, the record count at eight digits, the entry hash at ten, the
  debit and credit totals at twelve each, and 39 blanks.\<close>

theorem rebuild_file_padding:
  assumes "rebuild_file sd = Inr (sd', out)"
  shows "length out mod 10 = 0
    \<and> length out = control_index (newach_data sd) + 1 + extra_lines (control_index (newach_data sd) + 1)
    \<and> extra_lines (control_index (newach_data sd) + 1) < 10
    \<and> drop (control_index (newach_data sd) + 1) out
         = replicate (extra_lines (control_index (newach_data sd) + 1)) (replicate 94 (CHR ''9''))
    \<and> out ! control_index (newach_data sd)
         = ''9'' @ fmt_0d 6 (int (length (filter kept (newach_data sd))))
             @ fmt_0d 6 (int (length out div 10))
             @ fmt_0d 8 (total_record_cnt sd')
             @ fmt_0d 10 (hash10 (entry_hash_cnt sd'))
             @ fmt_0d 12 (total_debit sd') @ fmt_0d 12 (total_credit sd')
             @ replicate 39 (CHR '' '')"
proof -
  from rebuild_file_shape [OF assms] obtain k pre where
    fl: "file_loop (newach_data sd) (sd, 0, [file_header sd]) = Inr (sd', k, pre)"
    and len: "length pre = control_index (newach_data sd)"
    and out: "out = pre @ [file_control_footer k (int ((length pre + 1 + extra_lines (length pre + 1)) div 10))
                             (total_record_cnt sd') (hash10 (entry_hash_cnt sd'))
                             (total_debit sd') (total_credit sd')]
                     @ replicate (extra_lines (length pre + 1)) (replicate 94 (CHR ''9''))"
    by blast
  from file_loop_acc [OF fl] have k: "k = int (length (filter kept (newach_data sd)))" by simp
  have lo: "length out = length pre + 1 + extra_lines (length pre + 1)"
    by (subst out) simp
  have p1: "length out mod 10 = 0"
    using extra_lines_facts(2) [of "length pre + 1"] lo by simp
  have p2: "length out = control_index (newach_data sd) + 1 + extra_lines (control_index (newach_data sd) + 1)"
    using lo len by simp
  have p3: "extra_lines (control_index (newach_data sd) + 1) < 10"
    by (rule extra_lines_facts)
  have p4: "drop (control_index (newach_data sd) + 1) out
           = replicate (extra_lines (control_index (newach_data sd) + 1)) (replicate 94 (CHR ''9''))"
    by (subst out) (simp add: len [symmetric])
  have p5: "out ! control_index (newach_data sd)
           = ''9'' @ fmt_0d 6 (int (length (filter kept (newach_data sd))))
               @ fmt_0d 6 (int (length out div 10))
               @ fmt_0d 8 (total_record_cnt sd')
               @ fmt_0d 10 (hash10 (entry_hash_cnt sd'))
               @ fmt_0d 12 (total_debit sd') @ fmt_0d 12 (total_credit sd')
               @ replicate 39 (CHR '' '')"
    unfolding lo k [symmetric] len [symmetric]
    by (subst out) (simp add: nth_append file_control_footer_def)
  from p1 p2 p3 p4 p5 show ?thesis by blast
qed

text \<open>The file of one batch of one credit has five lines before the padding: ten lines
  in all, five of them padding, and block count 000001 in the control record.\<close>

theorem rebuild_file_padding_witness:
  "map_sum id (\<lambda>(sd', out). (length out, drop (control_index (newach_data ex_parsed) + 1) out,
                               out ! control_index (newach_data ex_parsed)))
     (rebuild_file ex_parsed)
   = Inr (10, replicate 5 (replicate 94 (CHR ''9'')),
          ''9000001000001000000010002100002000000000000000000002500                                       '')"
proof -
  let ?r = "rebuild_file ex_parsed"
  have r: "\<not> isl ?r" by (simp add: ex_rebuild_file)
  then have e: "?r = Inr (fst (projr ?r), snd (projr ?r))" by (simp add: sum.collapse)
  have c: "control_index (newach_data ex_parsed) = 4"
    by (simp add: control_index_def kept_def ex_parsed_def initialize_def)
  have k: "length (filter kept (newach_data ex_parsed)) = 1"
    by (simp add: kept_def ex_parsed_def initialize_def)
  have len: "length (snd (projr ?r)) = 10" by (simp add: ex_rebuild_file)
  have t: "total_record_cnt (fst (projr ?r)) = 1" "entry_hash_cnt (fst (projr ?r)) = 2100002"
    "total_debit (fst (projr ?r)) = 0" "total_credit (fst (projr ?r)) = 2500"
    by (simp_all add: ex_rebuild_file)
  have h: "hash10 2100002 = 2100002" by (simp add: hash10_nonneg)
  have f: "fmt_0d 6 1 = ''000001''" "fmt_0d 8 1 = ''00000001''"
    "fmt_0d 10 2100002 = ''0002100002''" "fmt_0d 12 0 = ''000000000000''"
    "fmt_0d 12 2500 = ''000000002500''"
    by (simp_all add: text_eval)
  from rebuild_file_padding [OF e]
  have "length (snd (projr ?r)) = 10
        \<and> drop (control_index (newach_data ex_parsed) + 1) (snd (projr ?r))
            = replicate 5 (replicate 94 (CHR ''9''))
        \<and> snd (projr ?r) ! control_index (newach_data ex_parsed)
            = ''9000001000001000000010002100002000000000000000000002500                                       ''"
    by (simp add: c k len t h f extra_lines_def replicate_numeral)
  with r show ?thesis by (cases ?r) (auto simp: split_def)
qed

text \<open>Claim C2, as amended.  Starting from zero run totals, the file control record is
  the text 9, the number of kept batches at six digits, the block count at six
  digits, the number of kept lines after the headers of the kept batches at eight
  digits (batch headers and batch control records are not counted), the sum of the
  first eight routing digits of all kept detail lines modulo \<open>10 ^ 10\<close> at ten digits,
  the sums of the batches' debit and credit totals at twelve digits each, and 39
  blanks.\<close>

theorem rebuild_file_control:
  assumes "rebuild_file sd = Inr (sd', out)"
    and "entry_hash_cnt sd = 0" and "total_credit sd = 0" and "total_debit sd = 0"
    and "total_record_cnt sd = 0"
    and "list_all (\<lambda>b. 0 \<le> hash_sum (tl b)) (filter kept (newach_data sd))"
  shows "out ! control_index (newach_data sd)
           = ''9'' @ fmt_0d 6 (int (length (filter kept (newach_data sd))))
               @ fmt_0d 6 (int (length out div 10))
               @ fmt_0d 8 (sum_list (map (\<lambda>b. int (length (tl b))) (filter kept (newach_data sd))))
               @ fmt_0d 10 (sum_list (map (\<lambda>b. hash_sum (tl b)) (filter kept (newach_data sd)))
                              mod 10 ^ 10)
               @ fmt_0d 12 (sum_list (map (\<lambda>b. debit_sum (tl b)) (filter kept (newach_data sd))))
               @ fmt_0d 12 (sum_list (map (\<lambda>b. credit_sum (tl b)) (filter kept (newach_data sd))))
               @ replicate 39 (CHR '' '')"
proof -
  let ?K = "filter kept (newach_data sd)"
  from rebuild_file_shape [OF assms(1)] obtain k pre where
    fl: "file_loop (newach_data sd) (sd, 0, [file_header sd]) = Inr (sd', k, pre)"
    and len: "length pre = control_index (newach_data sd)"
    and out: "out = pre @ [file_control_footer k (int ((length pre + 1 + extra_lines (length pre + 1)) div 10))
                             (total_record_cnt sd') (hash10 (entry_hash_cnt sd'))
                             (total_debit sd') (total_credit sd')]
                     @ replicate (extra_lines (length pre + 1)) (replicate 94 (CHR ''9''))"
    by blast
  note acc = file_loop_acc [OF fl]
  have lo: "length out = length pre + 1 + extra_lines (length pre + 1)"
    by (subst out) simp
  have "map (\<lambda>b. hash10 (hash_sum (tl b))) ?K = map (\<lambda>b. hash_sum (tl b) mod 10 ^ 10) ?K"
    using assms(6) by (intro map_cong refl hash10_nonneg) (simp add: list_all_iff)
  with acc assms(2) have eh: "entry_hash_cnt sd' = sum_list (map (\<lambda>b. hash_sum (tl b) mod 10 ^ 10) ?K)"
    by simp
  have "0 \<le> entry_hash_cnt sd'"
    unfolding eh by (intro sum_list_nonneg) auto
  then have "hash10 (entry_hash_cnt sd') = entry_hash_cnt sd' mod 10 ^ 10"
    by (rule hash10_nonneg)
  also have "\<dots> = sum_list (map (\<lambda>b. hash_sum (tl b)) ?K) mod 10 ^ 10"
    unfolding eh by (rule sum_list_mod_mod)
  finally have h: "hash10 (entry_hash_cnt sd') = sum_list (map (\<lambda>b. hash_sum (tl b)) ?K) mod 10 ^ 10" .
  have "out ! control_index (newach_data sd)
          = file_control_footer k (int (length out div 10))
              (total_record_cnt sd') (hash10 (entry_hash_cnt sd'))
              (total_debit sd') (total_credit sd')"
    unfolding lo len [symmetric] by (subst out) (simp add: nth_append)
  with acc assms(2-5) h show ?thesis by (simp add: file_control_footer_def)
qed

text \<open>Of the three stored batches of the example two are kept, with three lines and one
  line after their headers: batch count 000002, record count 00000004, entry hash
  8200016 + 6100014 and debit total 1000 + 1000.\<close>

theorem rebuild_file_control_witness:
  "map_sum id (\<lambda>(sd', out). out ! control_index (newach_data ex_two_batches))
     (rebuild_file ex_two_batches)
   = Inr ''9000002000001000000040014300030000000002000000000002500                                       ''"
proof -
  let ?r = "rebuild_file ex_two_batches"
  have r: "\<not> isl ?r" by (simp add: ex_rebuild_file)
  then have e: "?r = Inr (fst (projr ?r), snd (projr ?r))" by (simp add: sum.collapse)
  have len: "length (snd (projr ?r)) = 10" by (simp add: ex_rebuild_file)
  have z: "entry_hash_cnt ex_two_batches = 0" "total_credit ex_two_batches = 0"
    "total_debit ex_two_batches = 0" "total_record_cnt ex_two_batches = 0"
    by (simp_all add: ex_two_batches_def initialize_def)
  have k: "filter kept (newach_data ex_two_batches)
             = [[ex_batch_header, ex_credit, ex_debit, ex_plain_addenda], [ex_batch_header, ex_debit]]"
    by (simp add: ex_two_batches_def initialize_def kept_def)
  have n: "list_all (\<lambda>b. 0 \<le> hash_sum (tl b)) (filter kept (newach_data ex_two_batches))"
    by (simp add: k ex_sums)
  have f: "fmt_0d 6 2 = ''000002''" "fmt_0d 6 1 = ''000001''" "fmt_0d 8 4 = ''00000004''"
    "fmt_0d 10 14300030 = ''0014300030''" "fmt_0d 12 2000 = ''000000002000''"
    "fmt_0d 12 2500 = ''000000002500''"
    by (simp_all add: text_eval)
  from rebuild_file_control [OF e z n]
  have "snd (projr ?r) ! control_index (newach_data ex_two_batches)
          = ''9000002000001000000040014300030000000002000000000002500                                       ''"
    by (simp add: k len ex_sums f replicate_numeral)
  with r show ?thesis by (cases ?r) (auto simp: split_def)
qed

text \<open>Claim C2 as first stated fails: the record count of the file control record is not
  the number of lines of the rebuilt batches.  A batch of one detail line is rebuilt
  as three lines and counted as one record.\<close>

theorem record_count_is_not_line_count:
  "rebuild_batch ex_parsed [ex_batch_header, ex_credit] 1
     = Inr (ex_parsed\<lparr>entry_hash_cnt := 2100002, total_credit := 2500, total_debit := 0,
                       total_record_cnt := 1\<rparr>,
            [drop_last_n 7 ex_batch_header @ fmt_0d 7 1, ex_credit,
             batch_control_footer ''220'' 1 2100002 0 2500 ''123456789'' ''06100014'' (fmt_0d 7 1)])
   \<and> rebuild_file ex_parsed
     = Inr (ex_parsed\<lparr>entry_hash_cnt := 2100002, total_credit := 2500, total_debit := 0,
                       total_record_cnt := 1\<rparr>,
            [ex_file_header, drop_last_n 7 ex_batch_header @ fmt_0d 7 1, ex_credit,
             batch_control_footer ''220'' 1 2100002 0 2500 ''123456789'' ''06100014'' (fmt_0d 7 1),
             file_control_footer 1 1 1 2100002 0 2500,
             replicate 94 (CHR ''9''), replicate 94 (CHR ''9''), replicate 94 (CHR ''9''),
             replicate 94 (CHR ''9''), replicate 94 (CHR ''9'')])
   \<and> length [drop_last_n 7 ex_batch_header @ fmt_0d 7 1, ex_credit,
             batch_control_footer ''220'' 1 2100002 0 2500 ''123456789'' ''06100014'' (fmt_0d 7 1)]
     = 3
   \<and> file_control_footer 1 1 1 2100002 0 2500 \<noteq> file_control_footer 1 1 3 2100002 0 2500
   \<and> file_control_footer 1 1 1 2100002 0 2500
     = ''9000001000001000000010002100002000000000000000000002500                                       ''
   \<and> slice 13 21 ''9000001000001000000010002100002000000000000000000002500                                       ''
     = ''00000001''"
proof -
  have z: "entry_hash_cnt ex_parsed = 0" "total_credit ex_parsed = 0" "total_debit ex_parsed = 0"
    "total_record_cnt ex_parsed = 0"
    by (simp_all add: ex_parsed_def initialize_def)
  have "file_control_footer 1 1 1 2100002 0 2500 \<noteq> file_control_footer 1 1 3 2100002 0 2500"
    by (simp add: file_control_footer_def text_eval)
  moreover have "file_control_footer 1 1 1 2100002 0 2500
      = ''9000001000001000000010002100002000000000000000000002500                                       ''"
    by (simp add: file_control_footer_def text_eval)
  moreover have "slice 13 21 ''9000001000001000000010002100002000000000000000000002500                                       ''
      = ''00000001''"
    by (simp add: slice_def)
  ultimately show ?thesis
    by (simp add: ex_rebuild_file ex_rebuild_batch z)
qed

lemma rebuild_batch_frame:
  assumes "same_parsed a b"
  shows "case rebuild_batch a bd k of
           Inl e \<Rightarrow> rebuild_batch b bd k = Inl e
         | Inr (a', out) \<Rightarrow> (\<exists>b'. rebuild_batch b bd k = Inr (b', out) \<and> same_parsed a' b')"
  using assms
  by (auto simp: rebuild_batch_def same_parsed_def Let_def split: list.splits sum.splits option.splits)

lemma file_loop_frame:
  "same_parsed a b \<Longrightarrow>
   (case file_loop bs (a, k, out) of
      Inl e \<Rightarrow> file_loop bs (b, k, out) = Inl e
    | Inr (a', k', out') \<Rightarrow> (\<exists>b'. file_loop bs (b, k, out) = Inr (b', k', out') \<and> same_parsed a' b'))"
proof (induction bs arbitrary: a b k out)
  case Nil
  then show ?case by simp
next
  case (Cons bd bs)
  note f = rebuild_batch_frame [OF Cons.prems, of bd "k + 1"]
  show ?case
  proof (cases "rebuild_batch a bd (k + 1)")
    case (Inl e)
    with f show ?thesis by simp
  next
    case (Inr x)
    obtain a1 o1 where x: "x = (a1, o1)" by (cases x)
    from f Inr x obtain b1 where rb: "rebuild_batch b bd (k + 1) = Inr (b1, o1)"
      and s: "same_parsed a1 b1" by auto
    show ?thesis
    proof (cases "o1 = []")
      case True
      with Cons.IH [OF s, of k out] Inr x rb show ?thesis by (auto split: sum.splits)
    next
      case False
      with Cons.IH [OF s, of "k + 1" "out @ o1"] Inr x rb show ?thesis by (auto split: sum.splits)
    qed
  qed
qed

text \<open>Claim C6.  Reconstruction reads only the stored batches, the file header and the run
  totals: two run states that agree on these give the same lines and the same file
  text, or fail alike.\<close>

theorem rebuild_file_deterministic:
  assumes "same_parsed a b"
  shows "map_sum id snd (rebuild_file a) = map_sum id snd (rebuild_file b)
    \<and> map_sum id snd (write_new_ach_file a) = map_sum id snd (write_new_ach_file b)"
proof -
  from assms have eq: "newach_data a = newach_data b" "file_header a = file_header b"
    by (simp_all add: same_parsed_def)
  note f = file_loop_frame [OF assms, of "newach_data a" 0 "[file_header a]"]
  have 1: "map_sum id snd (rebuild_file a) = map_sum id snd (rebuild_file b)"
  proof (cases "file_loop (newach_data a) (a, 0, [file_header a])")
    case (Inl e)
    with f eq show ?thesis by (simp add: rebuild_file_def)
  next
    case (Inr x)
    obtain a1 k1 o1 where x: "x = (a1, k1, o1)" by (cases x)
    from f Inr x obtain b1 where
      "file_loop (newach_data a) (b, 0, [file_header a]) = Inr (b1, k1, o1)"
      and "same_parsed a1 b1" by auto
    with Inr x eq show ?thesis
      by (auto simp: rebuild_file_def same_parsed_def Let_def split: option.splits)
  qed
  have "\<And>s. map_sum id snd (write_new_ach_file s) = map_sum id file_text (map_sum id snd (rebuild_file s))"
    by (simp add: write_new_ach_file_def sum.map_comp comp_def split_def)
  with 1 show ?thesis by simp
qed

theorem rebuild_file_deterministic_witness:
  "same_parsed ex_parsed (ex_parsed\<lparr>all_onus_data := [ex_onus_record], swm_lines := [''x''], glDrAmt := 7\<rparr>)
   \<and> map_sum id snd (rebuild_file ex_parsed)
     = map_sum id snd (rebuild_file (ex_parsed\<lparr>all_onus_data := [ex_onus_record],
                                               swm_lines := [''x''], glDrAmt := 7\<rparr>))
   \<and> map_sum id snd (write_new_ach_file ex_parsed)
     = map_sum id snd (write_new_ach_file (ex_parsed\<lparr>all_onus_data := [ex_onus_record],
                                                      swm_lines := [''x''], glDrAmt := 7\<rparr>))"
proof -
  have s: "same_parsed ex_parsed
             (ex_parsed\<lparr>all_onus_data := [ex_onus_record], swm_lines := [''x''], glDrAmt := 7\<rparr>)"
    by (simp add: same_parsed_def)
  from rebuild_file_deterministic [OF s] s show ?thesis by simp
qed

section \<open>The transitions of the parser\<close>

text \<open>The transitions of the loop body, one lemma per branch.  The state is the
  batch being collected, the buffered candidate and the pending flag.\<close>

lemma record_type_exclusive: "startswith line [c] \<Longrightarrow> c \<noteq> d \<Longrightarrow> \<not> startswith line (d # ds)"
  by (auto simp: startswith_def prefix_def)

lemma parse_line_file_header:
  assumes "startswith line ''101''"
  shows "parse_line (loc, sd) line = Inr (Continue, loc, sd\<lparr>file_header := line\<rparr>)"
  using assms by (simp add: parse_line_def)

lemma parse_line_file_control:
  assumes "startswith line ''9''"
  shows "parse_line (loc, sd) line = Inr (Break, loc, sd)"
  using assms record_type_exclusive [OF assms] by (simp add: parse_line_def)

lemma parse_line_batch_header:
  assumes "startswith line ''5''"
  shows "parse_line (loc, sd) line = Inr (Continue, loc\<lparr>current_batch := [line]\<rparr>, sd)"
  using assms record_type_exclusive [OF assms] by (simp add: parse_line_def)

lemma parse_line_batch_control:
  assumes "startswith line ''8''" and "cb \<noteq> []"
  shows "io \<noteq> [] \<Longrightarrow>
         parse_line (\<lparr>current_batch = cb, onus_data = Some d, is_onus = io\<rparr>, sd) line
           = Inr (Continue, locals0, sd\<lparr>newach_data := newach_data sd @ [cb @ [onus_line d]]\<rparr>)"
    and "parse_line (\<lparr>current_batch = cb, onus_data = od, is_onus = []\<rparr>, sd) line
           = Inr (Continue, \<lparr>current_batch = [], onus_data = od, is_onus = []\<rparr>,
                  sd\<lparr>newach_data := newach_data sd @ [cb]\<rparr>)"
  using assms record_type_exclusive [OF assms(1)] by (simp_all add: parse_line_def)

lemma parse_line_addenda_idle:
  assumes "startswith line ''7''"
  shows "parse_line (\<lparr>current_batch = cb, onus_data = od, is_onus = []\<rparr>, sd) line
           = Inr (Continue, \<lparr>current_batch = cb @ [line], onus_data = od, is_onus = []\<rparr>, sd)"
  using assms record_type_exclusive [OF assms] by (simp add: parse_line_def)

lemma parse_line_addenda_disqualified:
  assumes "startswith line ''7''" and "io \<noteq> []" and "\<not> contains ''EXT OAO'' line"
  shows "parse_line (\<lparr>current_batch = cb, onus_data = Some d, is_onus = io\<rparr>, sd) line
           = Inr (Continue, \<lparr>current_batch = cb @ [onus_line d, line], onus_data = None,
                             is_onus = []\<rparr>, sd)"
  using assms record_type_exclusive [OF assms(1)] by (simp add: parse_line_def)

lemma parse_line_addenda_extracted:
  assumes "startswith line ''7''" and "io \<noteq> []" and "contains ''EXT OAO'' line"
    and "addenda_match line = Some g"
  shows "parse_line (\<lparr>current_batch = cb, onus_data = Some d, is_onus = io\<rparr>, sd) line
           = Inr (Continue, \<lparr>current_batch = cb, onus_data = None, is_onus = []\<rparr>,
                  sd\<lparr>all_onus_data := all_onus_data sd
                       @ [d\<lparr>onus_desc := Some (take 128 (strip g))\<rparr>]\<rparr>)"
  using assms record_type_exclusive [OF assms(1)] by (simp add: parse_line_def)

lemma parse_line_addenda_skipped:
  assumes "startswith line ''7''" and "is_onus loc \<noteq> []" and "contains ''EXT OAO'' line"
    and "addenda_match line = None"
  shows "parse_line (loc, sd) line = Inr (Continue, loc, sd)"
  using assms record_type_exclusive [OF assms(1)] by (simp add: parse_line_def)

lemma parse_line_detail_idle:
  assumes "startswith line ''6''"
  shows "is_onus_detail (FTFCU_ROUTENBR (args sd)) line \<Longrightarrow>
         parse_ach_detail_record line = Inr r \<Longrightarrow>
         parse_line (\<lparr>current_batch = cb, onus_data = od, is_onus = []\<rparr>, sd) line
           = Inr (Continue,
                  \<lparr>current_batch = cb,
                   onus_data = Some \<lparr>onus_rtnbr = rtnbr r, onus_acctnbr = acctnbr r,
                     onus_tc = ach_tc r, onus_amt = amt r, onus_trace = trace_nbr r,
                     onus_line = line, onus_desc = None\<rparr>,
                   is_onus = sequence_nbr r\<rparr>, sd)"
    and "\<not> is_onus_detail (FTFCU_ROUTENBR (args sd)) line \<Longrightarrow>
         parse_line (\<lparr>current_batch = cb, onus_data = od, is_onus = []\<rparr>, sd) line
           = Inr (Continue, \<lparr>current_batch = cb @ [line], onus_data = od, is_onus = []\<rparr>, sd)"
  using assms record_type_exclusive [OF assms] by (simp_all add: parse_line_def)

lemma parse_line_detail_pending:
  assumes "startswith line ''6''" and "io \<noteq> []"
    and "\<not> is_onus_detail (FTFCU_ROUTENBR (args sd)) line"
  shows "parse_line (\<lparr>current_batch = cb, onus_data = Some d, is_onus = io\<rparr>, sd) line
           = Inr (Continue, \<lparr>current_batch = cb @ [onus_line d, line], onus_data = None,
                             is_onus = []\<rparr>, sd)"
  using assms record_type_exclusive [OF assms(1)] by (simp add: parse_line_def)

lemmas parse_steps = parse_line_file_header parse_line_file_control parse_line_batch_header
  parse_line_batch_control parse_line_addenda_idle parse_line_addenda_disqualified
  parse_line_addenda_extracted parse_line_addenda_skipped parse_line_detail_idle
  parse_line_detail_pending

text \<open>Parsing leaves the run totals, the arguments and the settlement lines alone, so
  reconstruction after \<^verbatim>\<open>initialize\<close> and \<^verbatim>\<open>parse_ach_file\<close> starts from zero totals.\<close>

lemma parse_line_keeps:
  assumes "parse_line (loc, sd) line = Inr (f, loc', sd')"
  shows "entry_hash_cnt sd' = entry_hash_cnt sd \<and> total_credit sd' = total_credit sd
    \<and> total_debit sd' = total_debit sd \<and> total_record_cnt sd' = total_record_cnt sd
    \<and> args sd' = args sd \<and> swm_lines sd' = swm_lines sd"
  using assms
  by (auto simp: parse_line_def Let_def split: if_splits option.splits sum.splits bool.splits)

lemma parse_lines_keeps:
  "parse_lines (loc, sd) ls = Inr (loc', sd') \<Longrightarrow>
     entry_hash_cnt sd' = entry_hash_cnt sd \<and> total_credit sd' = total_credit sd
     \<and> total_debit sd' = total_debit sd \<and> total_record_cnt sd' = total_record_cnt sd
     \<and> args sd' = args sd \<and> swm_lines sd' = swm_lines sd"
proof (induction ls arbitrary: loc sd)
  case Nil
  then show ?case by simp
next
  case (Cons raw ls)
  show ?case
  proof (cases "strip raw = []")
    case True
    with Cons show ?thesis by simp
  next
    case False
    with Cons.prems obtain f loc1 sd1 where
      step: "parse_line (loc, sd) (strip raw) = Inr (f, loc1, sd1)"
      by (auto split: sum.splits)
    note k = parse_line_keeps [OF step]
    show ?thesis
    proof (cases f)
      case Break
      with Cons.prems False step k show ?thesis by simp
    next
      case Continue
      with Cons.prems False step have "parse_lines (loc1, sd1) ls = Inr (loc', sd')" by simp
      from Cons.IH [OF this] k show ?thesis by simp
    qed
  qed
qed

lemma parse_ach_file_keeps_totals:
  assumes "parse_ach_file (initialize a) achfile = Inr sd"
  shows "entry_hash_cnt sd = 0 \<and> total_credit sd = 0 \<and> total_debit sd = 0
    \<and> total_record_cnt sd = 0 \<and> args sd = a \<and> swm_lines sd = []"
proof -
  from assms obtain loc where "parse_lines (locals0, initialize a) achfile = Inr (loc, sd)"
    by (cases "parse_lines (locals0, initialize a) achfile") (auto simp: parse_ach_file_def)
  from parse_lines_keeps [OF this] show ?thesis by (simp add: initialize_def)
qed

text \<open>The pending flag is set only together with the buffer, and every buffered or
  extracted record has transaction code 22 or 32: the branches of the loop body for
  a set flag over an empty buffer are never reached, and the settlement table has
  an entry for every extracted record.\<close>

lemma is_onus_detail_code:
  assumes "is_onus_detail rt line"
  shows "slice 1 3 line = ''22'' \<or> slice 1 3 line = ''32''"
  using assms by (auto simp: is_onus_detail_def slice_def split: list.splits)

lemma parse_line_inv:
  assumes "parse_inv (loc, sd)" and "parse_line (loc, sd) line = Inr (f, loc', sd')"
  shows "parse_inv (loc', sd')"
proof (cases "startswith line ''6'' \<and> is_onus_detail (FTFCU_ROUTENBR (args sd)) line")
  case True
  then have c: "slice 1 3 line = ''22'' \<or> slice 1 3 line = ''32''"
    by (auto dest: is_onus_detail_code)
  from assms c True show ?thesis
    by (auto simp: parse_line_def parse_inv_def credit_code_def locals0_def Let_def
          parse_ach_detail_record_def
          split: if_splits option.splits sum.splits bool.splits)
next
  case False
  with assms show ?thesis
    by (auto simp: parse_line_def parse_inv_def credit_code_def locals0_def Let_def
          split: if_splits option.splits sum.splits bool.splits)
qed

lemma parse_lines_inv:
  "parse_inv (loc, sd) \<Longrightarrow> parse_lines (loc, sd) ls = Inr (loc', sd') \<Longrightarrow> parse_inv (loc', sd')"
proof (induction ls arbitrary: loc sd)
  case Nil
  then show ?case by simp
next
  case (Cons raw ls)
  show ?case
  proof (cases "strip raw = []")
    case True
    with Cons show ?thesis by simp
  next
    case False
    with Cons.prems obtain f loc1 sd1 where
      step: "parse_line (loc, sd) (strip raw) = Inr (f, loc1, sd1)"
      by (auto split: sum.splits)
    note i = parse_line_inv [OF Cons.prems(1) step]
    show ?thesis
    proof (cases f)
      case Break
      with Cons.prems False step i show ?thesis by simp
    next
      case Continue
      with Cons.prems False step have "parse_lines (loc1, sd1) ls = Inr (loc', sd')" by simp
      from Cons.IH [OF i this] show ?thesis .
    qed
  qed
qed

lemma parse_ach_file_credit_codes:
  assumes "parse_ach_file (initialize a) achfile = Inr sd"
  shows "list_all credit_code (all_onus_data sd)"
proof -
  from assms obtain loc where p: "parse_lines (locals0, initialize a) achfile = Inr (loc, sd)"
    by (cases "parse_lines (locals0, initialize a) achfile") (auto simp: parse_ach_file_def)
  have "parse_inv (locals0, initialize a)"
    by (simp add: parse_inv_def locals0_def initialize_def)
  from parse_lines_inv [OF this p] show ?thesis by (simp add: parse_inv_def)
qed

lemma not_other_record:
  assumes "startswith line ''7''"
  shows "\<not> startswith line ''101''" "\<not> startswith line ''9''" "\<not> startswith line ''8''"
    "\<not> startswith line ''5''" "line \<noteq> []"
  using assms by (auto simp: startswith_def prefix_def)

text \<open>Claim C10.  While a candidate is pending, an addenda line that holds the marker but
  does not have the shape the description is read from changes nothing: it is
  written to neither output, and the candidate stays pending for the lines that
  follow.\<close>

theorem marker_addenda_without_shape_is_skipped:
  assumes "is_onus loc \<noteq> []"
    and "startswith (strip raw) ''7''"
    and "contains ''EXT OAO'' (strip raw)"
    and "addenda_match (strip raw) = None"
  shows "parse_line (loc, sd) (strip raw) = Inr (Continue, loc, sd)
    \<and> parse_lines (loc, sd) (raw # rest) = parse_lines (loc, sd) rest"
proof -
  note n = not_other_record [OF assms(2)]
  have 1: "parse_line (loc, sd) (strip raw) = Inr (Continue, loc, sd)"
    using assms n by (simp add: parse_line_def)
  then have "parse_lines (loc, sd) (raw # rest) = parse_lines (loc, sd) rest"
    using n(5) by simp
  with 1 show ?thesis by simp
qed

theorem marker_addenda_without_shape_is_skipped_witness:
  "is_onus ex_pending \<noteq> []
   \<and> contains ''EXT OAO'' ex_short_addenda
   \<and> addenda_match ex_short_addenda = None
   \<and> parse_line (ex_pending, initialize ex_args) ex_short_addenda
       = Inr (Continue, ex_pending, initialize ex_args)
   \<and> parse_lines (ex_pending, initialize ex_args) [ex_short_addenda, ex_file_control]
       = Inr (ex_pending, initialize ex_args)"
proof -
  have a: "is_onus ex_pending \<noteq> []" by (simp add: ex_pending_def)
  have b: "startswith (strip ex_short_addenda) ''7''" by (simp add: ex_strip ex_kind)
  have c: "contains ''EXT OAO'' (strip ex_short_addenda)" by (simp add: ex_strip ex_addenda_marker)
  have d: "addenda_match (strip ex_short_addenda) = None" by (simp add: ex_strip ex_addenda_shape)
  from marker_addenda_without_shape_is_skipped [OF a b c d, of "initialize ex_args" "[ex_file_control]"]
  show ?thesis
    using a by (simp add: ex_strip ex_nonempty ex_kind ex_addenda_marker ex_addenda_shape
                  parse_line_file_control)
qed

text \<open>Claim C3.  Such an addenda line is lost while its detail line is kept: the entry is
  removed in part.  The branch for an addenda without the marker restores both
  lines, and the branch for a well-shaped marker addenda removes both.\<close>

theorem marker_addenda_lost_detail_kept:
  "map_sum id (\<lambda>sd. (newach_data sd, all_onus_data sd))
     (parse_ach_file (initialize ex_args)
        [ex_file_header, ex_batch_header, ex_onus, ex_short_addenda, ex_batch_control,
         ex_file_control])
   = Inr ([[ex_batch_header, ex_onus]], [])"
  by (simp add: parse_ach_file_def locals0_def initialize_def ex_args_def ex_strip ex_nonempty
        ex_kind parse_steps ex_onus_detail ex_addenda_marker ex_addenda_shape)

text \<open>Claim C8.  The description is everything between \<^verbatim>\<open>705\<close> and the last three
  characters of the line.  For a 94-character addenda that is positions 4 to 91:
  the payment-related information (positions 4 to 83, as the source's comment
  says), then the addenda sequence number and four digits of the entry detail
  sequence number.\<close>

theorem description_runs_past_payment_information:
  "map_sum id (\<lambda>sd. map onus_desc (all_onus_data sd))
     (parse_ach_file (initialize ex_args)
        [ex_file_header, ex_batch_header, ex_onus, ex_addenda, ex_batch_control, ex_file_control])
   = Inr [Some ''EXT OAO JOHN DOE TRANSFER                                                       00010000'']
   \<and> take 128 (strip (slice 3 83 ex_addenda)) = ''EXT OAO JOHN DOE TRANSFER''"
  by (simp add: parse_ach_file_def locals0_def initialize_def ex_args_def ex_strip ex_nonempty
        ex_kind parse_steps ex_onus_detail ex_addenda_marker ex_addenda_shape)

section \<open>The settlement file\<close>

text \<open>With transaction codes 22 and 32 only, as parsing leaves them, the loop raises
  nothing and the settlement file is written.\<close>

lemma onus_loop_total:
  "list_all credit_code ds \<Longrightarrow> \<exists>sd'. onus_loop ds sd = Inr sd'"
proof (induction ds arbitrary: sd)
  case Nil
  show ?case by simp
next
  case (Cons d ds)
  then have "credit_code d" and rest: "list_all credit_code ds" by simp_all
  then obtain l where "create_swim_line (sd\<lparr>glDrAmt := glDrAmt sd + onus_amt d\<rparr>) d = Inr l"
    by (auto simp: credit_code_def create_swim_line_def achToDnaTc_def)
  with Cons.IH [OF rest] show ?case by (simp add: Let_def)
qed

lemma loop_through_onus_data_total:
  assumes "list_all credit_code (all_onus_data sd)"
  shows "\<exists>r. loop_through_onus_data (get_swim_file_info sd) = Inr r"
proof -
  have "all_onus_data (get_swim_file_info sd) = all_onus_data sd"
    by (simp add: get_swim_file_info_def)
  with onus_loop_total [OF assms, of "get_swim_file_info sd"] show ?thesis
    by (auto simp: loop_through_onus_data_def Let_def)
qed

lemma onus_loop_acc:
  "onus_loop ds sd = Inr sd' \<Longrightarrow>
     swm_lines sd' = swm_lines sd @ map (settlement_line sd) ds
     \<and> glDrAmt sd' = glDrAmt sd + sum_list (map onus_amt ds)
     \<and> effDate sd' = effDate sd \<and> args sd' = args sd"
proof (induction ds arbitrary: sd)
  case Nil
  then show ?case by simp
next
  case (Cons d ds)
  let ?sd1 = "sd\<lparr>glDrAmt := glDrAmt sd + onus_amt d\<rparr>"
  from Cons.prems obtain l where l: "create_swim_line ?sd1 d = Inr l"
    by (auto simp: Let_def split: sum.splits)
  let ?sd2 = "?sd1\<lparr>swm_lines := swm_lines ?sd1 @ [l], swimCt := swimCt ?sd1 + 1\<rparr>"
  from Cons.prems l have "onus_loop ds ?sd2 = Inr sd'"
    by (simp add: Let_def)
  note ih = Cons.IH [OF this]
  have same: "\<And>x. settlement_line ?sd2 x = settlement_line sd x"
    by (simp add: settlement_line_def create_swim_line_def split: option.splits)
  have "settlement_line sd d = l"
    using l by (auto simp: settlement_line_def create_swim_line_def split: option.splits)
  with ih same show ?case by simp
qed

text \<open>Claim C4.  The settlement lines are one line per on-us record followed by exactly
  one ledger-offset line, built by the same formatter from the ledger account
  number, the code GLD, the description \<^verbatim>\<open>DNA ACH GL debit offset\<close> and the sum of
  the amounts of the on-us records (zero when there are none).\<close>

theorem settlement_ends_with_ledger_offset:
  assumes "loop_through_onus_data (get_swim_file_info sd) = Inr (sd', txt)"
  shows "swm_lines sd' = swm_lines sd
           @ map (settlement_line (get_swim_file_info sd)) (all_onus_data sd)
           @ [swimFmt (GL_ACCTNBR (args sd)) ''GLD'' (sum_list (map onus_amt (all_onus_data sd)))
                (EFFDATE (args sd)) ''DNA ACH GL debit offset'' [] (CASH_BOX_NUMBER (args sd))]
    \<and> txt = file_text (swm_lines sd')"
proof -
  let ?s0 = "get_swim_file_info sd"
  from assms obtain sd1 where l: "onus_loop (all_onus_data ?s0) ?s0 = Inr sd1"
    by (auto simp: loop_through_onus_data_def split: sum.splits)
  note acc = onus_loop_acc [OF l]
  have a: "all_onus_data ?s0 = all_onus_data sd" "swm_lines ?s0 = swm_lines sd"
    "glDrAmt ?s0 = 0" "effDate ?s0 = EFFDATE (args sd)" "args ?s0 = args sd"
    by (simp_all add: get_swim_file_info_def)
  from assms l have sd': "sd' = (offset_gl sd1)\<lparr>swm_lines := swm_lines (offset_gl sd1) @ [gl_cr_line (offset_gl sd1)]\<rparr>"
    and t: "txt = file_text (swm_lines sd')"
    by (auto simp: loop_through_onus_data_def Let_def)
  from acc a have "swm_lines sd' = swm_lines sd
           @ map (settlement_line (get_swim_file_info sd)) (all_onus_data sd)
           @ [swimFmt (GL_ACCTNBR (args sd)) ''GLD'' (sum_list (map onus_amt (all_onus_data sd)))
                (EFFDATE (args sd)) ''DNA ACH GL debit offset'' [] (CASH_BOX_NUMBER (args sd))]"
    unfolding sd' by (simp add: offset_gl_def)
  with t show ?thesis by simp
qed

theorem settlement_ends_with_ledger_offset_witness:
  "map_sum id (\<lambda>(sd', txt). swm_lines sd') (loop_through_onus_data (get_swim_file_info ex_extracted))
   = Inr [swimFmt ''55503'' ''DEPD'' 12345 ''20250811'' ''OAO External Transfer''
            ''061000140000003'' ''9001'',
          swimFmt ''1234567'' ''GLD'' 12345 ''20250811'' ''DNA ACH GL debit offset'' [] ''9001'']"
proof -
  let ?r = "loop_through_onus_data (get_swim_file_info ex_extracted)"
  have r: "\<not> isl ?r"
    by (simp add: loop_through_onus_data_def get_swim_file_info_def ex_extracted_def
          ex_onus_record_def initialize_def create_swim_line_def achToDnaTc_def Let_def)
  then have e: "?r = Inr (fst (projr ?r), snd (projr ?r))" by (simp add: sum.collapse)
  from settlement_ends_with_ledger_offset [OF e]
  have "swm_lines (fst (projr ?r))
          = [swimFmt ''55503'' ''DEPD'' 12345 ''20250811'' ''OAO External Transfer''
               ''061000140000003'' ''9001'',
             swimFmt ''1234567'' ''GLD'' 12345 ''20250811'' ''DNA ACH GL debit offset'' [] ''9001'']"
    by (simp add: settlement_line_def get_swim_file_info_def ex_extracted_def ex_onus_record_def
          initialize_def ex_args_def create_swim_line_def achToDnaTc_def)
  with r show ?thesis by (cases ?r) (simp_all add: split_def)
qed

section \<open>The checks of the routing number validator\<close>

lemma py_int_single: "is_digit c \<Longrightarrow> py_int [c] = Some (int (digit_val c))"
  using py_int_digits [of "[c]"] by (simp add: dec_val_def)

lemma digits_of_all:
  "list_all is_digit r \<Longrightarrow> digits_of r = Inr (map (\<lambda>c. int (digit_val c)) r)"
  by (induction r) (simp_all add: py_int_single)

lemma fed_symbol_district:
  assumes "is_digit a" and "is_digit b"
  shows "List.member fed_districts [a, b] = district_ok (10 * digit_val a + digit_val b)"
proof -
  have "list_all (\<lambda>a. list_all (\<lambda>b. List.member fed_districts [a, b]
           = district_ok (10 * digit_val a + digit_val b)) ''0123456789'') ''0123456789''"
    by (simp add: fed_districts_def district_ok_def digit_val_def)
  with assms show ?thesis
    unfolding list_all_iff is_digit_def by blast
qed

lemma nine_chars:
  assumes "length r = 9"
  obtains c0 c1 c2 c3 c4 c5 c6 c7 c8 where "r = [c0, c1, c2, c3, c4, c5, c6, c7, c8]"
  using assms by (auto simp: eval_nat_numeral length_Suc_conv)

lemma fed_symbol_digits:
  assumes "List.member fed_districts [a, b]"
  shows "is_digit a \<and> is_digit b"
proof -
  have "list_all (\<lambda>d. list_all is_digit d) fed_districts"
    by (simp add: fed_districts_def is_digit_def)
  with assms have "list_all is_digit [a, b]"
    unfolding list_all_iff List.member_iff by blast
  then show ?thesis by simp
qed

lemma py_int_superscript: "is_superscript c \<Longrightarrow> py_int [c] = None"
  by (auto simp: is_superscript_def py_int_def int_strip_def int_space_def int_unsigned_def
        is_digit_def)

lemma digits_of_superscript:
  assumes "list_all (\<lambda>c. is_digit c \<or> is_superscript c) r" and "\<not> list_all is_digit r"
  shows "digits_of r = Inl ValueError"
  using assms
proof (induction r)
  case Nil
  then show ?case by simp
next
  case (Cons c cs)
  show ?case
  proof (cases "is_digit c")
    case True
    with Cons show ?thesis by (simp add: py_int_single)
  next
    case False
    with Cons.prems have "is_superscript c" by simp
    then show ?thesis by (simp add: py_int_superscript)
  qed
qed

text \<open>What the validator returns, check by check.  Text of nine characters that
  \<^verbatim>\<open>str.isdigit\<close> accepts and whose third and fourth characters are a district
  reaches the checksum, where \<^verbatim>\<open>int\<close> raises ValueError at a superscript digit.\<close>

lemma validate_route_number_cases:
  "validate_route_number r =
     (if \<not> isdigit r then Inr (False, [''Routing number must be all digits''])
      else if length r \<noteq> 9 then Inr (False, [''Routing number too short''])
      else if \<not> (is_digit (r ! 2) \<and> is_digit (r ! 3)
                  \<and> district_ok (10 * digit_val (r ! 2) + digit_val (r ! 3))) then
        Inr (False, [''Invalid fed district''])
      else if \<not> list_all is_digit r then Inl ValueError
      else if checksum_of r mod 10 \<noteq> 0 then Inr (False, [''Invalid checksum''])
      else Inr (True, []))"
proof (cases "isdigit r \<and> length r = 9")
  case False
  then show ?thesis
    by (auto simp: validate_route_number_def)
next
  case True
  then have len: "length r = 9" and wide: "list_all (\<lambda>c. is_digit c \<or> is_superscript c) r"
    by (simp_all add: isdigit_def)
  from len obtain c0 c1 c2 c3 c4 c5 c6 c7 c8 where r: "r = [c0, c1, c2, c3, c4, c5, c6, c7, c8]"
    by (rule nine_chars)
  have fed: "is_valid_fed_symbol r
               = (is_digit (r ! 2) \<and> is_digit (r ! 3)
                  \<and> district_ok (10 * digit_val (r ! 2) + digit_val (r ! 3)))"
    using fed_symbol_district [of c2 c3] fed_symbol_digits [of c2 c3]
    by (auto simp: is_valid_fed_symbol_def slice_def r)
  show ?thesis
  proof (cases "list_all is_digit r")
    case False
    from digits_of_superscript [OF wide False]
    have "validate_routing_number_checksum r = Inl ValueError"
      by (simp add: validate_routing_number_checksum_def)
    with True False fed show ?thesis
      by (simp add: validate_route_number_def)
  next
    case dig: True
    have chk: "validate_routing_number_checksum r = Inr (checksum_of r mod 10 = 0)"
    proof -
      have "(int (digit_val c0) * 3 + int (digit_val c1) * 7 + int (digit_val c2) * 1
             + int (digit_val c3) * 3 + int (digit_val c4) * 7 + int (digit_val c5) * 1
             + int (digit_val c6) * 3 + int (digit_val c7) * 7 + int (digit_val c8) * 1)
            = int (checksum_of r)"
        by (simp add: checksum_of_def r)
      then show ?thesis
        unfolding validate_routing_number_checksum_def digits_of_all [OF dig]
        by (simp add: r zmod_int [symmetric] del: of_nat_add of_nat_mult) presburger
    qed
    from True dig fed chk show ?thesis
      by (simp add: validate_route_number_def)
  qed
qed

text \<open>On ASCII text the validator passes exactly the strings of nine digits whose third
  and fourth digits form a district from 01 to 12 or from 20 to 39 and whose weighted
  digit sum is a multiple of ten, and otherwise reports the first check that fails.\<close>

lemma validate_route_number_ascii:
  assumes "list_all is_ascii r"
  shows "validate_route_number r =
     (if \<not> nine_digits r then
        Inr (False, [if isdigit r then ''Routing number too short''
                     else ''Routing number must be all digits''])
      else if \<not> district_ok (10 * digit_val (r ! 2) + digit_val (r ! 3)) then
        Inr (False, [''Invalid fed district''])
      else if checksum_of r mod 10 \<noteq> 0 then Inr (False, [''Invalid checksum''])
      else Inr (True, []))"
proof -
  have "\<not> is_superscript c" if "is_ascii c" for c
    using that by (auto simp: is_ascii_def is_superscript_def)
  with assms have d: "isdigit r = (r \<noteq> [] \<and> list_all is_digit r)"
    by (auto simp: isdigit_def list_all_iff)
  show ?thesis
  proof (cases "nine_digits r")
    case False
    then show ?thesis
      by (auto simp: validate_route_number_cases d nine_digits_def)
  next
    case True
    then have "length r = 9" and "list_all is_digit r" by (simp_all add: nine_digits_def)
    moreover then have "is_digit (r ! 2)" and "is_digit (r ! 3)"
      by (simp_all add: list_all_length)
    ultimately show ?thesis
      using True by (auto simp: validate_route_number_cases d)
  qed
qed

text \<open>Claim C9.  The validator takes its first check from \<^verbatim>\<open>str.isdigit\<close>, which
  accepts digits that are not ASCII, and hands each character to \<^verbatim>\<open>int\<close>.  The nine
  characters 02100002 and a superscript two (U+00B2) pass the first check, the
  length check and the district check (10), and the checksum then raises ValueError:
  the validator returns neither pass nor fail, and reports no reason.\<close>

theorem superscript_digit_raises:
  "isdigit (''02100002'' @ [CHR 0xB2])
   \<and> \<not> nine_digits (''02100002'' @ [CHR 0xB2])
   \<and> length (''02100002'' @ [CHR 0xB2]) = 9
   \<and> is_valid_fed_symbol (''02100002'' @ [CHR 0xB2])
   \<and> validate_routing_number_checksum (''02100002'' @ [CHR 0xB2]) = Inl ValueError
   \<and> validate_route_number (''02100002'' @ [CHR 0xB2]) = Inl ValueError
   \<and> validate_route_number ''021000021'' = Inr (True, [])
   \<and> validate_route_number ''02100002X'' = Inr (False, [''Routing number must be all digits''])"
  by (simp add: validate_route_number_def validate_routing_number_checksum_def isdigit_def
        nine_digits_def is_valid_fed_symbol_def fed_districts_def is_superscript_def
        text_eval)

end
